theory Spec2Isabelle
  imports Complex_Main "HOL-Library.Multiset"
begin

section \<open>Numbers and values\<close>

text \<open>
  JavaScript numbers are IEEE 754 doubles. The theory reads them in two ways. In exact
  arithmetic a number is the real it denotes and \<open>+\<close>, \<open>-\<close>, \<open>*\<close>, \<open>/\<close> and
  \<open>Math.pow\<close> are the operations of the reals (\<open>Math.pow\<close> is \<open>powr\<close>,
  \<open>Math.sign\<close> is \<open>sgn\<close>, \<open>Math.abs\<close> is \<open>abs\<close>): this is the reading of the
  specification, whose scores are real numbers, and the properties that no rounding can
  touch (which entries an operation writes, what a reset leaves, the order of a sort) are
  stated in it. In double arithmetic a number is still the real it denotes, and every
  operation rounds its exact result to the nearest double: the properties that ask for an
  exact equality of accumulated scores are stated in it. \<open>NaN\<close> and the infinities are
  outside both readings; where the source can produce \<open>NaN\<close> the model says so.
\<close>

text \<open>\<open>Math.round\<close>: the nearest integer, a half rounded towards plus infinity.\<close>

definition js_round :: "real \<Rightarrow> int" where
  "js_round x = \<lfloor>x + 1 / 2\<rfloor>"

subsection \<open>Rounding to a double\<close>

text \<open>The nearest integer, a half rounded to the even neighbour.\<close>

definition roundTiesToEven :: "real \<Rightarrow> int" where
  "roundTiesToEven x =
     (let n = \<lfloor>x\<rfloor>; r = x - of_int n
      in if r < 1 / 2 then n else if 1 / 2 < r then n + 1 else if even n then n else n + 1)"

text \<open>
  The distance between neighbouring doubles at \<open>x\<close>: a double has 53 significant bits, so
  for \<open>2 ^ e \<le> |x| < 2 ^ (e + 1)\<close> the distance is \<open>2 ^ (e - 52)\<close>, and it is
  \<open>2 ^ - 1074\<close> for the subnormal numbers below \<open>2 ^ - 1022\<close>.
\<close>

definition quantum :: "real \<Rightarrow> real" where
  "quantum x = 2 powr of_int (max (\<lfloor>log 2 \<bar>x\<bar>\<rfloor> - 52) (- 1074))"

text \<open>
  The double nearest to a real, ties to even (the rounding of every IEEE operation in
  JavaScript). A result beyond the largest double, which JavaScript turns into an
  infinity, is outside the model; signed zeros are not told apart.
\<close>

definition fl :: "real \<Rightarrow> real" where
  "fl x = (if x = 0 then 0 else of_int (roundTiesToEven (x / quantum x)) * quantum x)"

text \<open>The operators \<open>+\<close>, \<open>-\<close>, \<open>*\<close> and \<open>/\<close> on doubles.\<close>

definition fadd :: "real \<Rightarrow> real \<Rightarrow> real" where
  "fadd x y = fl (x + y)"

definition fsub :: "real \<Rightarrow> real \<Rightarrow> real" where
  "fsub x y = fl (x - y)"

definition fmul :: "real \<Rightarrow> real \<Rightarrow> real" where
  "fmul x y = fl (x * y)"

definition fdiv :: "real \<Rightarrow> real \<Rightarrow> real" where
  "fdiv x y = fl (x / y)"

text \<open>
  \<open>Math.pow\<close> on a base that is not negative. ECMAScript leaves its last bit to the
  implementation; the model takes the double nearest to the power.
\<close>

definition Math_pow :: "real \<Rightarrow> real \<Rightarrow> real" where
  "Math_pow x y = fl (x powr y)"

text \<open>
  A value handed to a function that checks its argument: a finite number, a number that is
  not finite (\<open>NaN\<close>, \<open>Infinity\<close>, \<open>-Infinity\<close>), or a value that is not of type number
  (\<open>undefined\<close>, \<open>null\<close>, a string, an object).
\<close>

datatype jsval = Num real | NonFinite | NonNumber

text \<open>The eight cognitive functions, the keys of \<open>FUNCTIONS\<close>.\<close>

datatype func = Ni | Ne | Si | Se | Ti | Te | Fi | Fe


datatype error = TypeError | NaNScore

section \<open>Scoring one answer\<close>

subsection \<open>\<open>calculateScore\<close> of \<open>src/core.js\<close>\<close>

definition calculateScore :: "real \<Rightarrow> bool \<Rightarrow> real" where
  "calculateScore v isReverse =
     (let actualValue = (if isReverse then 6 - v else v);
          base = actualValue - 3;
          weight = sgn base * (\<bar>base\<bar> powr 1.2)
      in weight)"

subsection \<open>\<open>calculateScore\<close> of the refactored core (\<open>src/unnamed/part_003\<close>)\<close>

definition LIKERT_SCALE_MIDPOINT :: real where
  "LIKERT_SCALE_MIDPOINT = 3"

definition SCORE_EMPHASIS_EXPONENT :: real where
  "SCORE_EMPHASIS_EXPONENT = 1.2"

definition LIKERT_SCALE_REVERSE_BASE :: real where
  "LIKERT_SCALE_REVERSE_BASE = 6"

text \<open>\<open>Number.isInteger(value) && value >= 1 && value <= 5\<close>.\<close>

fun isValidLikertValue :: "jsval \<Rightarrow> bool" where
  "isValidLikertValue (Num r) = (r \<in> \<int> \<and> r \<ge> 1 \<and> r \<le> 5)"
| "isValidLikertValue NonFinite = False"
| "isValidLikertValue NonNumber = False"

text \<open>A call of \<open>console.error\<close>, with the value it reports.\<close>

datatype console = InvalidLikertValue jsval

text \<open>
  The refactored scorer returns the lines it wrote with \<open>console.error\<close> and its result.
\<close>

fun calculateScore_refactored :: "jsval \<Rightarrow> bool \<Rightarrow> console list \<times> real" where
  "calculateScore_refactored (Num v) isReverse =
     (if \<not> isValidLikertValue (Num v) then ([InvalidLikertValue (Num v)], 0)
      else
        (let actualValue = (if isReverse then LIKERT_SCALE_REVERSE_BASE - v else v);
             deviation = actualValue - LIKERT_SCALE_MIDPOINT;
             emphasizedScore = sgn deviation * (\<bar>deviation\<bar> powr SCORE_EMPHASIS_EXPONENT)
         in ([], emphasizedScore)))"
| "calculateScore_refactored NonFinite isReverse = ([InvalidLikertValue NonFinite], 0)"
| "calculateScore_refactored NonNumber isReverse = ([InvalidLikertValue NonNumber], 0)"

subsection \<open>\<open>calculateScore\<close> of \<open>src/core.js\<close> in double arithmetic\<close>

text \<open>
  The same function with every operation rounded; the literal \<open>1.2\<close> is the double
  nearest to 12 / 10.
\<close>

definition calculateScore_double :: "real \<Rightarrow> bool \<Rightarrow> real" where
  "calculateScore_double v isReverse =
     (let actualValue = (if isReverse then fsub 6 v else v);
          base = fsub actualValue 3;
          weight = fmul (sgn base) (Math_pow \<bar>base\<bar> (fl (12 / 10)))
      in weight)"

section \<open>Normalising a score for display\<close>

subsection \<open>\<open>normalizeScore\<close> of the application (\<open>src/unnamed/part_000\<close>)\<close>

definition SCORE_MIN :: real where
  "SCORE_MIN = - 20"

definition SCORE_MAX :: real where
  "SCORE_MAX = 20"

definition normalizeScore :: "real \<Rightarrow> int" where
  "normalizeScore rawScore =
     max 0 (min 100 (js_round (((rawScore - SCORE_MIN) / (SCORE_MAX - SCORE_MIN)) * 100)))"

subsection \<open>\<open>normalizeScore\<close> of the refactored core (\<open>src/unnamed/part_003\<close>)\<close>

text \<open>The fields of the constant object \<open>SCORE_NORMALIZATION\<close>.\<close>

definition SCORE_NORMALIZATION_MIN :: real where
  "SCORE_NORMALIZATION_MIN = - 20"

definition SCORE_NORMALIZATION_MAX :: real where
  "SCORE_NORMALIZATION_MAX = 20"

definition SCORE_NORMALIZATION_OUTPUT_MIN :: real where
  "SCORE_NORMALIZATION_OUTPUT_MIN = 0"

definition SCORE_NORMALIZATION_OUTPUT_MAX :: real where
  "SCORE_NORMALIZATION_OUTPUT_MAX = 100"

definition normalizeScore_refactored :: "real \<Rightarrow> int" where
  "normalizeScore_refactored rawScore =
     (let lo = SCORE_NORMALIZATION_MIN; hi = SCORE_NORMALIZATION_MAX;
          out_lo = SCORE_NORMALIZATION_OUTPUT_MIN; out_hi = SCORE_NORMALIZATION_OUTPUT_MAX;
          normalized = ((rawScore - lo) / (hi - lo)) * (out_hi - out_lo) + out_lo
      in js_round (max out_lo (min out_hi normalized)))"

subsection \<open>The display value of the older applications\<close>

text \<open>
  \<open>src/unnamed/part_001\<close> (\<open>renderQuestion\<close>) and \<open>src/unnamed/part_002\<close>
  (\<open>renderQuestion\<close>, \<open>updateSidePanel\<close>, \<open>renderResult\<close>) have no \<open>normalizeScore\<close>;
  they compute the displayed score in place as
  \<open>Math.max(0, Math.round((val + 10) * 5))\<close>.
\<close>

definition displayValue_legacy :: "real \<Rightarrow> int" where
  "displayValue_legacy val = max 0 (js_round ((val + 10) * 5))"

section \<open>Classification\<close>








subsection \<open>\<open>determineMBTIType\<close> of \<open>src/core.js\<close>\<close>


subsection \<open>\<open>determineMBTIType\<close> of the refactored core (\<open>src/unnamed/part_003\<close>)\<close>







subsection \<open>The classifier as the specification words it\<close>






section \<open>Questions\<close>

text \<open>
  The question bank is \<open>data.js\<close>, which is not among the sources; the applications read
  the fields \<open>id\<close>, \<open>text\<close>, \<open>type\<close> and \<open>reverse\<close> of a question. The bank is a
  parameter of the model. The type of a question is one of the eight keys of
  \<open>functionScores\<close>; \<open>reverse\<close> may be absent (\<open>question.reverse || false\<close>).
\<close>

record question =
  qid :: nat
  qtext :: string
  qtype :: func
  qreverse :: "bool option"

section \<open>Shuffling the questions (\<open>src/unnamed/part_000\<close>, \<open>src/unnamed/part_002\<close>)\<close>

text \<open>
  \<open>Math.random\<close> is a source of numbers: \<open>rnd k\<close> is the value of the call number \<open>k\<close>.
  Each function takes the number of calls made so far and returns it updated.
\<close>

type_synonym random_source = "nat \<Rightarrow> real"

text \<open>
  The loop of \<open>fisherYatesShuffle\<close>, \<open>for (let i = shuffled.length - 1; i > 0; i--)\<close>,
  at index \<open>i\<close>.
\<close>

fun fisherYatesLoop :: "random_source \<Rightarrow> nat \<Rightarrow> nat \<Rightarrow> 'a list \<Rightarrow> 'a list \<times> nat" where
  "fisherYatesLoop rnd k 0 shuffled = (shuffled, k)"
| "fisherYatesLoop rnd k (Suc n) shuffled =
     (let i = Suc n;
          j = nat \<lfloor>rnd k * (real i + 1)\<rfloor>
      in fisherYatesLoop rnd (Suc k) n (shuffled[i := shuffled ! j, j := shuffled ! i]))"

definition fisherYatesShuffle :: "random_source \<Rightarrow> nat \<Rightarrow> 'a list \<Rightarrow> 'a list \<times> nat" where
  "fisherYatesShuffle rnd k array = fisherYatesLoop rnd k (length array - 1) array"

text \<open>The check for two neighbours of the same type, which stops at the first pair.\<close>

fun hasConsecutive :: "question list \<Rightarrow> bool" where
  "hasConsecutive (p # c # rest) = (if qtype c = qtype p then True else hasConsecutive (c # rest))"
| "hasConsecutive [p] = False"
| "hasConsecutive [] = False"

definition maxAttempts :: nat where
  "maxAttempts = 1000"

text \<open>
  What \<open>shuffleQuestionsWithConstraints\<close> returns, with the number of passes of its loop,
  whether the fallback after the loop was taken, and the number of calls of \<open>Math.random\<close>.
\<close>

record shuffle_outcome =
  so_questions :: "question list"
  so_attempts :: nat
  so_fallback :: bool
  so_randoms :: nat

function shuffleLoop :: "random_source \<Rightarrow> nat \<Rightarrow> nat \<Rightarrow> question list \<Rightarrow> shuffle_outcome" where
  "shuffleLoop rnd k attempt questions =
     (if attempt < maxAttempts then
        (case fisherYatesShuffle rnd k questions of
           (shuffled, k') \<Rightarrow>
             if \<not> hasConsecutive shuffled
             then \<lparr>so_questions = shuffled, so_attempts = attempt + 1,
                   so_fallback = False, so_randoms = k'\<rparr>
             else shuffleLoop rnd k' (attempt + 1) questions)
      else
        (case fisherYatesShuffle rnd k questions of
           (shuffled, k') \<Rightarrow>
             \<lparr>so_questions = shuffled, so_attempts = attempt,
              so_fallback = True, so_randoms = k'\<rparr>))"
  by pat_completeness auto
termination
  by (relation "measure (\<lambda>(rnd, k, attempt, questions). maxAttempts - attempt)") auto

declare shuffleLoop.simps [simp del]

definition shuffleQuestionsWithConstraints :: "random_source \<Rightarrow> question list \<Rightarrow> shuffle_outcome" where
  "shuffleQuestionsWithConstraints rnd questions = shuffleLoop rnd 0 0 questions"

section \<open>The session of the application (\<open>src/unnamed/part_000\<close>)\<close>

text \<open>
  The application imports \<open>calculateScore\<close> from \<open>./core.js\<close>; the sessions below call
  the one of \<open>src/core.js\<close>. On the values 1 to 5 that the buttons pass, the refactored
  scorer returns the same score (\<open>calculateScore_refactored_valid\<close>). The timers are
  events of their own: what \<open>handleAnswer\<close> schedules runs when \<open>TimerFires\<close> happens.
\<close>

record answer =
  ans_value :: real
  ans_isReverse :: bool

record quiz_state =
  currentQuestion :: nat
  answers :: "nat \<rightharpoonup> answer"
  functionScores :: "func \<Rightarrow> real"
  showResult :: bool

definition createDefaultState :: quiz_state where
  "createDefaultState =
     \<lparr>currentQuestion = 0, answers = Map.empty, functionScores = (\<lambda>f. 0), showResult = False\<rparr>"

text \<open>
  The callback handed to \<open>nextStep\<close>: \<open>state.currentQuestion++\<close> or
  \<open>state.showResult = true\<close>.
\<close>

datatype transition = Advance | ShowResult

text \<open>
  The module's variables \<open>state\<close> and \<open>isProcessing\<close>, and the transition a timer will
  run. \<open>handleAnswer\<close> sets a timer only when \<open>isProcessing\<close> was false and only
  the timer clears \<open>isProcessing\<close>, so at most one is pending.
\<close>

record app =
  state :: quiz_state
  isProcessing :: bool
  pending :: "transition option"

definition initialApp :: app where
  "initialApp = \<lparr>state = createDefaultState, isProcessing = False, pending = None\<rparr>"

text \<open>
  The part of \<open>handleAnswer\<close> that records the answer (lines 143 to 166): the old
  contribution of the question is taken off, the new one is added, the answer is stored.
\<close>

definition recordAnswer :: "question \<Rightarrow> real \<Rightarrow> quiz_state \<Rightarrow> quiz_state" where
  "recordAnswer question v st =
     (let funcType = qtype question;
          isReverse = (case qreverse question of Some b \<Rightarrow> b | None \<Rightarrow> False);
          oldAnswer = answers st (qid question);
          scores = (case oldAnswer of
                      None \<Rightarrow> functionScores st
                    | Some oldAnswerData \<Rightarrow>
                        (let oldScore = calculateScore (ans_value oldAnswerData) isReverse
                         in (functionScores st)(funcType := functionScores st funcType - oldScore)));
          delta = calculateScore v isReverse
      in st\<lparr>answers := (answers st)(qid question \<mapsto> \<lparr>ans_value = v, ans_isReverse = isReverse\<rparr>),
            functionScores := scores(funcType := scores funcType + delta)\<rparr>)"

text \<open>
  \<open>handleAnswer\<close>: nothing happens while \<open>isProcessing\<close>; \<open>questions[state.currentQuestion]\<close>
  is \<open>undefined\<close> past the end of the list and reading its \<open>type\<close> throws, after
  \<open>isProcessing\<close> was set. The pop-up and the buttons are not modelled.
\<close>

definition handleAnswer :: "question list \<Rightarrow> real \<Rightarrow> app \<Rightarrow> error option \<times> app" where
  "handleAnswer questions v a =
     (if isProcessing a then (None, a)
      else
        (let a1 = a\<lparr>isProcessing := True\<rparr> in
         if length questions \<le> currentQuestion (state a1) then (Some TypeError, a1)
         else
           (let question = questions ! currentQuestion (state a1);
                st = recordAnswer question v (state a1);
                callback = (if currentQuestion st < length questions - 1
                            then Advance else ShowResult)
            in (None, a1\<lparr>state := st, pending := Some callback\<rparr>))))"

text \<open>The body of the timer of \<open>nextStep\<close>: the callback, \<open>render\<close>, \<open>isProcessing = false\<close>.\<close>

fun nextStep :: "transition \<Rightarrow> app \<Rightarrow> app" where
  "nextStep Advance a =
     a\<lparr>state := (state a)\<lparr>currentQuestion := currentQuestion (state a) + 1\<rparr>,
       isProcessing := False\<rparr>"
| "nextStep ShowResult a =
     a\<lparr>state := (state a)\<lparr>showResult := True\<rparr>, isProcessing := False\<rparr>"

definition timerFires :: "app \<Rightarrow> app" where
  "timerFires a =
     (case pending a of None \<Rightarrow> a | Some callback \<Rightarrow> nextStep callback (a\<lparr>pending := None\<rparr>))"

definition goBack :: "app \<Rightarrow> app" where
  "goBack a =
     (if currentQuestion (state a) > 0 \<and> \<not> isProcessing a
      then a\<lparr>state := (state a)\<lparr>currentQuestion := currentQuestion (state a) - 1\<rparr>\<rparr>
      else a)"

definition reset :: "app \<Rightarrow> app" where
  "reset a = a\<lparr>state := createDefaultState\<rparr>"

text \<open>What can happen to a session, and a session as the list of what happened.\<close>

datatype event = Answer real | GoBack | Reset | TimerFires

fun step :: "question list \<Rightarrow> app \<Rightarrow> event \<Rightarrow> app" where
  "step questions a (Answer v) = snd (handleAnswer questions v a)"
| "step questions a GoBack = goBack a"
| "step questions a Reset = reset a"
| "step questions a TimerFires = timerFires a"

definition run :: "question list \<Rightarrow> event list \<Rightarrow> app" where
  "run questions events = foldl (step questions) initialApp events"

text \<open>
  The sum, over the questions of type \<open>d\<close> that have a recorded answer, of the score of
  the stored value under the stored reversal flag. Over a bank with distinct ids it is the
  sum over the recorded answers of the questions of type \<open>d\<close> (\<open>recordedScore_sum\<close>).
\<close>

definition recordedScore :: "question list \<Rightarrow> (nat \<rightharpoonup> answer) \<Rightarrow> func \<Rightarrow> real" where
  "recordedScore questions ans d =
     (\<Sum>q\<leftarrow>filter (\<lambda>q. qtype q = d) questions.
        case ans (qid q) of
          None \<Rightarrow> 0
        | Some a \<Rightarrow> calculateScore (ans_value a) (ans_isReverse a))"

text \<open>The ids of the recorded answers whose question has type \<open>d\<close>.\<close>

definition answersOfType :: "question list \<Rightarrow> (nat \<rightharpoonup> answer) \<Rightarrow> func \<Rightarrow> nat set" where
  "answersOfType questions ans d = {i \<in> dom ans. \<exists>q \<in> set questions. qid q = i \<and> qtype q = d}"

text \<open>\<open>question.reverse || false\<close>, the flag \<open>handleAnswer\<close> scores and stores.\<close>

definition isReverseOf :: "question \<Rightarrow> bool" where
  "isReverseOf question = (case qreverse question of Some b \<Rightarrow> b | None \<Rightarrow> False)"

text \<open>
  The invariant of a session over a bank of questions: every score is the sum of the
  recorded answers of its type, every recorded answer belongs to a question of the bank,
  and it carries the reversal flag of its question.
\<close>

definition scoresMatchAnswers :: "question list \<Rightarrow> quiz_state \<Rightarrow> bool" where
  "scoresMatchAnswers questions st \<longleftrightarrow>
     (\<forall>d. functionScores st d = recordedScore questions (answers st) d)
   \<and> dom (answers st) \<subseteq> qid ` set questions
   \<and> (\<forall>q \<in> set questions. \<forall>a. answers st (qid q) = Some a \<longrightarrow> ans_isReverse a = isReverseOf q)"

subsection \<open>The session in double arithmetic\<close>

text \<open>
  \<open>handleAnswer\<close> with the arithmetic of the source: \<open>-=\<close> and \<open>+=\<close> round their
  result, and the scores are those of \<open>calculateScore_double\<close>. The timer, \<open>goBack\<close> and
  \<open>reset\<close> do no arithmetic and are the functions above.
\<close>

definition recordAnswer_double :: "question \<Rightarrow> real \<Rightarrow> quiz_state \<Rightarrow> quiz_state" where
  "recordAnswer_double question v st =
     (let funcType = qtype question;
          isReverse = (case qreverse question of Some b \<Rightarrow> b | None \<Rightarrow> False);
          oldAnswer = answers st (qid question);
          scores = (case oldAnswer of
                      None \<Rightarrow> functionScores st
                    | Some oldAnswerData \<Rightarrow>
                        (let oldScore = calculateScore_double (ans_value oldAnswerData) isReverse
                         in (functionScores st)(funcType := fsub (functionScores st funcType) oldScore)));
          delta = calculateScore_double v isReverse
      in st\<lparr>answers := (answers st)(qid question \<mapsto> \<lparr>ans_value = v, ans_isReverse = isReverse\<rparr>),
            functionScores := scores(funcType := fadd (scores funcType) delta)\<rparr>)"

definition handleAnswer_double :: "question list \<Rightarrow> real \<Rightarrow> app \<Rightarrow> error option \<times> app" where
  "handleAnswer_double questions v a =
     (if isProcessing a then (None, a)
      else
        (let a1 = a\<lparr>isProcessing := True\<rparr> in
         if length questions \<le> currentQuestion (state a1) then (Some TypeError, a1)
         else
           (let question = questions ! currentQuestion (state a1);
                st = recordAnswer_double question v (state a1);
                callback = (if currentQuestion st < length questions - 1
                            then Advance else ShowResult)
            in (None, a1\<lparr>state := st, pending := Some callback\<rparr>))))"

fun step_double :: "question list \<Rightarrow> app \<Rightarrow> event \<Rightarrow> app" where
  "step_double questions a (Answer v) = snd (handleAnswer_double questions v a)"
| "step_double questions a GoBack = goBack a"
| "step_double questions a Reset = reset a"
| "step_double questions a TimerFires = timerFires a"

definition run_double :: "question list \<Rightarrow> event list \<Rightarrow> app" where
  "run_double questions events = foldl (step_double questions) initialApp events"

text \<open>
  The sum, as a real number, of the scores that \<open>calculateScore_double\<close> gives the recorded
  answers of the questions of type \<open>d\<close>.
\<close>

definition recordedScore_double :: "question list \<Rightarrow> (nat \<rightharpoonup> answer) \<Rightarrow> func \<Rightarrow> real" where
  "recordedScore_double questions ans d =
     (\<Sum>q\<leftarrow>filter (\<lambda>q. qtype q = d) questions.
        case ans (qid q) of
          None \<Rightarrow> 0
        | Some a \<Rightarrow> calculateScore_double (ans_value a) (ans_isReverse a))"

text \<open>
  The invariant of a session in double arithmetic: every score is within \<open>err\<close> of the sum
  of the recorded answers of its type, every recorded answer belongs to a question of the
  bank, carries the reversal flag of its question and holds one of the values 1 to 5.
\<close>

definition scoresNearAnswers :: "question list \<Rightarrow> real \<Rightarrow> quiz_state \<Rightarrow> bool" where
  "scoresNearAnswers questions err st \<longleftrightarrow>
     (\<forall>d. \<bar>functionScores st d - recordedScore_double questions (answers st) d\<bar> \<le> err)
   \<and> dom (answers st) \<subseteq> qid ` set questions
   \<and> (\<forall>q \<in> set questions. \<forall>a. answers st (qid q) = Some a \<longrightarrow>
          ans_isReverse a = isReverseOf q \<and> isValidLikertValue (Num (ans_value a)))"

section \<open>The session of the older applications (\<open>src/unnamed/part_001\<close>, \<open>src/unnamed/part_002\<close>)\<close>

text \<open>
  In the older applications a state object holds its \<open>answers\<close> and its \<open>functionScores\<close>
  by reference. \<open>defaultState\<close> is an object of the module, \<open>state\<close> starts as the shallow
  copy \<open>{ ...defaultState }\<close>, and \<open>reset\<close> makes such a copy again: the copy has the
  fields of \<open>defaultState\<close>, so it refers to the same two objects. The store maps an
  address to the object there; the answers and the score vectors have a store each.
\<close>

type_synonym addr = nat

record legacy_state =
  l_currentQuestion :: nat
  l_answers :: addr
  l_functionScores :: addr
  l_showResult :: bool

record legacy_app =
  answersAt :: "addr \<Rightarrow> (nat \<rightharpoonup> real)"
  scoresAt :: "addr \<Rightarrow> (func \<Rightarrow> real)"
  defaultState :: legacy_state
  l_state :: legacy_state
  l_isProcessing :: bool
  l_pending :: "transition option"

text \<open>
  The module after loading: the two object literals of \<open>defaultState\<close> are at the
  addresses 0 and 1, and \<open>state\<close> is the copy of \<open>defaultState\<close>.
\<close>

definition legacy_initialApp :: legacy_app where
  "legacy_initialApp =
     (let d = \<lparr>l_currentQuestion = 0, l_answers = 0, l_functionScores = 1, l_showResult = False\<rparr>
      in \<lparr>answersAt = (\<lambda>p. Map.empty), scoresAt = (\<lambda>p f. 0),
           defaultState = d, l_state = d, l_isProcessing = False, l_pending = None\<rparr>)"

text \<open>\<open>state.answers\<close> and \<open>state.functionScores\<close>: the objects the state refers to.\<close>

definition answers_legacy :: "legacy_app \<Rightarrow> (nat \<rightharpoonup> real)" where
  "answers_legacy a = answersAt a (l_answers (l_state a))"

definition functionScores_legacy :: "legacy_app \<Rightarrow> (func \<Rightarrow> real)" where
  "functionScores_legacy a = scoresAt a (l_functionScores (l_state a))"

text \<open>
  The part of the older \<open>handleAnswer\<close> that records the answer: the stored answer is the
  value alone, and \<open>calculateScore\<close> is called without a reversal flag.
\<close>

definition recordAnswer_legacy :: "question \<Rightarrow> real \<Rightarrow> legacy_app \<Rightarrow> legacy_app" where
  "recordAnswer_legacy question v a =
     (let funcType = qtype question;
          pa = l_answers (l_state a);
          ps = l_functionScores (l_state a);
          oldAnswer = answersAt a pa (qid question);
          scores = (case oldAnswer of
                      None \<Rightarrow> scoresAt a ps
                    | Some old \<Rightarrow>
                        (scoresAt a ps)(funcType := scoresAt a ps funcType - calculateScore old False));
          delta = calculateScore v False
      in a\<lparr>answersAt := (answersAt a)(pa := (answersAt a pa)(qid question \<mapsto> v)),
           scoresAt := (scoresAt a)(ps := scores(funcType := scores funcType + delta))\<rparr>)"

definition handleAnswer_legacy :: "question list \<Rightarrow> real \<Rightarrow> legacy_app \<Rightarrow> error option \<times> legacy_app" where
  "handleAnswer_legacy questions v a =
     (if l_isProcessing a then (None, a)
      else
        (let a1 = a\<lparr>l_isProcessing := True\<rparr> in
         if length questions \<le> l_currentQuestion (l_state a1) then (Some TypeError, a1)
         else
           (let question = questions ! l_currentQuestion (l_state a1);
                a2 = recordAnswer_legacy question v a1;
                callback = (if l_currentQuestion (l_state a2) < length questions - 1
                            then Advance else ShowResult)
            in (None, a2\<lparr>l_pending := Some callback\<rparr>))))"

fun nextStep_legacy :: "transition \<Rightarrow> legacy_app \<Rightarrow> legacy_app" where
  "nextStep_legacy Advance a =
     a\<lparr>l_state := (l_state a)\<lparr>l_currentQuestion := l_currentQuestion (l_state a) + 1\<rparr>,
       l_isProcessing := False\<rparr>"
| "nextStep_legacy ShowResult a =
     a\<lparr>l_state := (l_state a)\<lparr>l_showResult := True\<rparr>, l_isProcessing := False\<rparr>"

definition timerFires_legacy :: "legacy_app \<Rightarrow> legacy_app" where
  "timerFires_legacy a =
     (case l_pending a of
        None \<Rightarrow> a
      | Some callback \<Rightarrow> nextStep_legacy callback (a\<lparr>l_pending := None\<rparr>))"

definition goBack_legacy :: "legacy_app \<Rightarrow> legacy_app" where
  "goBack_legacy a =
     (if l_currentQuestion (l_state a) > 0 \<and> \<not> l_isProcessing a
      then a\<lparr>l_state := (l_state a)\<lparr>l_currentQuestion := l_currentQuestion (l_state a) - 1\<rparr>\<rparr>
      else a)"

text \<open>\<open>state = { ...defaultState }\<close>: the fields of \<open>defaultState\<close>, references included.\<close>

definition reset_legacy :: "legacy_app \<Rightarrow> legacy_app" where
  "reset_legacy a = a\<lparr>l_state := defaultState a\<rparr>"

fun step_legacy :: "question list \<Rightarrow> legacy_app \<Rightarrow> event \<Rightarrow> legacy_app" where
  "step_legacy questions a (Answer v) = snd (handleAnswer_legacy questions v a)"
| "step_legacy questions a GoBack = goBack_legacy a"
| "step_legacy questions a Reset = reset_legacy a"
| "step_legacy questions a TimerFires = timerFires_legacy a"

definition run_legacy :: "question list \<Rightarrow> event list \<Rightarrow> legacy_app" where
  "run_legacy questions events = foldl (step_legacy questions) legacy_initialApp events"

text \<open>
  The stored answers of the older applications as answers with the reversal flag off, which
  is how their \<open>handleAnswer\<close> scores them, and the invariant of an older session: the
  scores are the sums of the recorded answers, and \<open>state\<close> refers to the objects of
  \<open>defaultState\<close>.
\<close>

definition storedAnswers_legacy :: "legacy_app \<Rightarrow> (nat \<rightharpoonup> answer)" where
  "storedAnswers_legacy a =
     (\<lambda>i. map_option (\<lambda>v. \<lparr>ans_value = v, ans_isReverse = False\<rparr>) (answers_legacy a i))"

definition scoresMatchAnswers_legacy :: "question list \<Rightarrow> legacy_app \<Rightarrow> bool" where
  "scoresMatchAnswers_legacy questions a \<longleftrightarrow>
     (\<forall>d. functionScores_legacy a d = recordedScore questions (storedAnswers_legacy a) d)
   \<and> dom (answers_legacy a) \<subseteq> qid ` set questions
   \<and> l_answers (defaultState a) = l_answers (l_state a)
   \<and> l_functionScores (defaultState a) = l_functionScores (l_state a)"

section \<open>Sample inputs\<close>

text \<open>
  A bank of three questions, a bank of two questions of one type, and a session on the
  first: three answers, then back to the first question and a revision of its answer.
\<close>

definition demoQuestions :: "question list" where
  "demoQuestions =
     [\<lparr>qid = 1, qtext = ''q1'', qtype = Ni, qreverse = None\<rparr>,
      \<lparr>qid = 2, qtext = ''q2'', qtype = Ne, qreverse = Some True\<rparr>,
      \<lparr>qid = 3, qtext = ''q3'', qtype = Ni, qreverse = Some True\<rparr>]"

definition sameTypeQuestions :: "question list" where
  "sameTypeQuestions =
     [\<lparr>qid = 1, qtext = ''q1'', qtype = Ni, qreverse = None\<rparr>,
      \<lparr>qid = 2, qtext = ''q2'', qtype = Ni, qreverse = None\<rparr>]"

definition demoSession :: "event list" where
  "demoSession =
     [Answer 5, TimerFires, Answer 4, TimerFires, Answer 1, TimerFires, GoBack, GoBack, Answer 3]"

text \<open>
  A bank of nine questions of one type, and sessions on it: six answers of 5; the same
  with a seventh answer of 5 that is then revised to 3; the same with the seventh
  question answered 3 at once; eight answers, the seventh a 4; and the same with the
  seventh question answered 4 once more.
\<close>

definition niQuestions :: "question list" where
  "niQuestions =
     [\<lparr>qid = 1, qtext = ''n1'', qtype = Ni, qreverse = None\<rparr>,
      \<lparr>qid = 2, qtext = ''n2'', qtype = Ni, qreverse = None\<rparr>,
      \<lparr>qid = 3, qtext = ''n3'', qtype = Ni, qreverse = None\<rparr>,
      \<lparr>qid = 4, qtext = ''n4'', qtype = Ni, qreverse = None\<rparr>,
      \<lparr>qid = 5, qtext = ''n5'', qtype = Ni, qreverse = None\<rparr>,
      \<lparr>qid = 6, qtext = ''n6'', qtype = Ni, qreverse = None\<rparr>,
      \<lparr>qid = 7, qtext = ''n7'', qtype = Ni, qreverse = None\<rparr>,
      \<lparr>qid = 8, qtext = ''n8'', qtype = Ni, qreverse = None\<rparr>,
      \<lparr>qid = 9, qtext = ''n9'', qtype = Ni, qreverse = None\<rparr>]"

definition sixFives :: "event list" where
  "sixFives =
     [Answer 5, TimerFires, Answer 5, TimerFires, Answer 5, TimerFires,
      Answer 5, TimerFires, Answer 5, TimerFires, Answer 5, TimerFires]"

definition revisedSession :: "event list" where
  "revisedSession = sixFives @ [Answer 5, TimerFires, GoBack, Answer 3]"

definition directSession :: "event list" where
  "directSession = sixFives @ [Answer 3]"

definition eightAnswers :: "event list" where
  "eightAnswers =
     [Answer 1, TimerFires, Answer 1, TimerFires, Answer 1, TimerFires,
      Answer 1, TimerFires, Answer 1, TimerFires, Answer 1, TimerFires,
      Answer 4, TimerFires, Answer 1, TimerFires, GoBack, GoBack]"

definition repeatedSession :: "event list" where
  "repeatedSession = eightAnswers @ [Answer 4]"

section \<open>Properties of rounding to a double\<close>

lemma quantum_binade:
  assumes "2 powr of_int e \<le> \<bar>x\<bar>" "\<bar>x\<bar> < 2 powr of_int (e + 1)" "- 1022 \<le> e"
  shows "quantum x = 2 powr of_int (e - 52)"
proof -
  have "(0::real) < 2 powr of_int e" by simp
  then have pos: "0 < \<bar>x\<bar>" using assms(1) by linarith
  have "\<lfloor>log 2 \<bar>x\<bar>\<rfloor> = e"
    using assms(1,2) pos by (simp add: floor_log_eq_powr_iff)
  moreover have "max (e - 52) (- 1074) = e - 52" using assms(3) by simp
  ultimately show ?thesis by (simp add: quantum_def)
qed

lemma powr_neg_nat: "(2::real) powr (- real k) = 1 / 2 ^ k"
proof -
  have "(2::real) powr (- real k) = inverse ((2::real) powr real k)" by (rule powr_minus)
  also have "\<dots> = 1 / 2 ^ k"
    by (simp only: powr_realpow [OF zero_less_numeral] inverse_eq_divide)
  finally show ?thesis .
qed

lemma fl_quantum: "x \<noteq> 0 \<Longrightarrow> quantum x = 1 / 2 ^ k \<Longrightarrow> fl x = of_int (roundTiesToEven (x * 2 ^ k)) / 2 ^ k"
  by (simp add: fl_def)

lemma fl_pow2:
  assumes "2 ^ n \<le> \<bar>x\<bar>" "\<bar>x\<bar> < 2 * 2 ^ n" "n \<le> 52"
  shows "fl x = of_int (roundTiesToEven (x * 2 ^ (52 - n))) / 2 ^ (52 - n)"
proof -
  have pn: "(2::real) powr of_int (int n) = 2 ^ n"
    by (simp only: of_int_of_nat_eq powr_realpow [OF zero_less_numeral])
  have a: "2 powr of_int (int n) \<le> \<bar>x\<bar>" using assms(1) by (simp only: pn)
  have "(2::real) powr of_int (int n + 1) = 2 powr of_int (int n) * 2 powr 1"
    by (simp only: of_int_add powr_add of_int_1)
  then have pn1: "(2::real) powr of_int (int n + 1) = 2 * 2 ^ n" by (simp only: pn) simp
  have b: "\<bar>x\<bar> < 2 powr of_int (int n + 1)" using assms(2) by (simp only: pn1)
  have c: "- 1022 \<le> int n" by simp
  have q: "quantum x = 2 powr of_int (int n - 52)"
    by (rule quantum_binade [OF a b c])
  have "int n - 52 = - int (52 - n)" using assms(3) by linarith
  then have "real_of_int (int n - 52) = - real (52 - n)"
    by (simp only: of_int_minus of_int_of_nat_eq)
  then have q': "quantum x = 1 / 2 ^ (52 - n)"
    using q by (simp only: powr_neg_nat)
  have "x \<noteq> 0"
  proof
    assume "x = 0"
    then have "(2::real) ^ n \<le> 0" using assms(1) by simp
    moreover have "(0::real) < 2 ^ n" by simp
    ultimately show False by linarith
  qed
  then show ?thesis using q' by (rule fl_quantum)
qed

lemma fl_inv_pow2:
  assumes "1 \<le> \<bar>x\<bar> * 2 ^ n" "\<bar>x\<bar> * 2 ^ n < 2" "n \<le> 1022"
  shows "fl x = of_int (roundTiesToEven (x * 2 ^ (52 + n))) / 2 ^ (52 + n)"
proof -
  have "real_of_int (- int n) = - real n" by (simp only: of_int_minus of_int_of_nat_eq)
  then have p: "(2::real) powr of_int (- int n) = 1 / 2 ^ n"
    by (simp only: powr_neg_nat)
  have pos: "(0::real) < 2 ^ n" by simp
  have "1 / 2 ^ n \<le> \<bar>x\<bar>" using assms(1) pos by (simp add: field_simps)
  then have a: "2 powr of_int (- int n) \<le> \<bar>x\<bar>" by (simp only: p)
  have "(2::real) powr of_int (- int n + 1) = 2 powr of_int (- int n) * 2 powr 1"
    by (simp only: of_int_add powr_add of_int_1)
  then have p1: "(2::real) powr of_int (- int n + 1) = 2 / 2 ^ n"
    by (simp only: p) simp
  have "\<bar>x\<bar> < 2 / 2 ^ n" using assms(2) pos by (simp add: field_simps)
  then have b: "\<bar>x\<bar> < 2 powr of_int (- int n + 1)" by (simp only: p1)
  have c: "- 1022 \<le> - int n" using assms(3) by simp
  have q: "quantum x = 2 powr of_int (- int n - 52)"
    by (rule quantum_binade [OF a b c])
  have "- int n - 52 = - int (52 + n)" by linarith
  then have "real_of_int (- int n - 52) = - real (52 + n)"
    by (simp only: of_int_minus of_int_of_nat_eq)
  then have q': "quantum x = 1 / 2 ^ (52 + n)"
    using q by (simp only: powr_neg_nat)
  have "x \<noteq> 0" using assms(1) by auto
  then show ?thesis using q' by (rule fl_quantum)
qed

lemma roundTiesToEven_near:
  assumes "of_int m - 1 / 2 < x" "x < of_int m + 1 / 2"
  shows "roundTiesToEven x = m"
proof -
  have "\<lfloor>x\<rfloor> = m \<or> \<lfloor>x\<rfloor> = m - 1" using assms by linarith
  then show ?thesis
  proof
    assume f: "\<lfloor>x\<rfloor> = m"
    then have "x - of_int m < 1 / 2" using assms by simp
    then show ?thesis using f by (simp add: roundTiesToEven_def Let_def)
  next
    assume f: "\<lfloor>x\<rfloor> = m - 1"
    then have "1 / 2 < x - of_int (m - 1)" using assms by simp
    then show ?thesis using f by (simp add: roundTiesToEven_def Let_def)
  qed
qed

lemma fl_1: "1 \<le> \<bar>x\<bar> \<Longrightarrow> \<bar>x\<bar> < 2 \<Longrightarrow> fl x = of_int (roundTiesToEven (x * 2 ^ 52)) / 2 ^ 52"
  using fl_pow2 [where n = 0 and x = x] by simp

lemma fl_2: "2 \<le> \<bar>x\<bar> \<Longrightarrow> \<bar>x\<bar> < 4 \<Longrightarrow> fl x = of_int (roundTiesToEven (x * 2 ^ 51)) / 2 ^ 51"
  using fl_pow2 [where n = 1 and x = x] by simp

lemma fl_4: "4 \<le> \<bar>x\<bar> \<Longrightarrow> \<bar>x\<bar> < 8 \<Longrightarrow> fl x = of_int (roundTiesToEven (x * 2 ^ 50)) / 2 ^ 50"
  using fl_pow2 [where n = 2 and x = x] by simp

lemma fl_8: "8 \<le> \<bar>x\<bar> \<Longrightarrow> \<bar>x\<bar> < 16 \<Longrightarrow> fl x = of_int (roundTiesToEven (x * 2 ^ 49)) / 2 ^ 49"
  using fl_pow2 [where n = 3 and x = x] by simp

lemma fl_16: "16 \<le> \<bar>x\<bar> \<Longrightarrow> \<bar>x\<bar> < 32 \<Longrightarrow> fl x = of_int (roundTiesToEven (x * 2 ^ 48)) / 2 ^ 48"
  using fl_pow2 [where n = 4 and x = x] by simp

lemma fl_half: "1 / 2 \<le> \<bar>x\<bar> \<Longrightarrow> \<bar>x\<bar> < 1 \<Longrightarrow> fl x = of_int (roundTiesToEven (x * 2 ^ 53)) / 2 ^ 53"
  using fl_inv_pow2 [where n = 1 and x = x] by simp

lemmas fl_evals = fl_1 fl_2 fl_4 fl_8 fl_16 fl_half

lemma fl_0: "fl 0 = 0"
  by (simp add: fl_def)

lemma fl_exponent: "fl (6 / 5) = 5404319552844595 / 4503599627370496"
  by (simp add: fl_evals roundTiesToEven_def Let_def)

lemma fl_units: "fl 2 = 2" "fl 1 = 1" "fl (- 2) = - 2" "fl (-1) = -1" 
  by (simp_all add: fl_evals roundTiesToEven_def Let_def)

lemma fl_emphasised: "fl (1293319370881437 / 562949953421312) = 1293319370881437 / 562949953421312"
  by (simp add: fl_evals roundTiesToEven_def Let_def)

lemma fl_emphasised_neg: "fl (- (1293319370881437 / 562949953421312)) = - (1293319370881437 / 562949953421312)"
  by (simp add: fl_evals roundTiesToEven_def Let_def)

lemma fl_ints: "fl 3 = 3" "fl 4 = 4" "fl 5 = 5" "fl (- 1) = - 1" "fl (- 2) = - 2"
  by (simp_all add: fl_evals roundTiesToEven_def Let_def)

lemma roundTiesToEven_error: "\<bar>of_int (roundTiesToEven y) - y\<bar> \<le> 1 / 2"
proof -
  have "of_int \<lfloor>y\<rfloor> \<le> y" "y < of_int \<lfloor>y\<rfloor> + 1" by linarith+
  then show ?thesis by (auto simp: roundTiesToEven_def Let_def)
qed

lemma quantum_pos: "0 < quantum x"
  by (simp add: quantum_def)

lemma quantum_le:
  assumes "x \<noteq> 0" "\<bar>x\<bar> \<le> 2048"
  shows "quantum x \<le> 1 / 2 ^ 41"
proof -
  have "log 2 \<bar>x\<bar> \<le> log 2 2048" using assms by (simp del: log_le_cancel_iff add: log_le_cancel_iff)
  also have "log 2 2048 = log 2 (2 ^ 11)" by simp
  also have "\<dots> = 11" by (subst log_pow_cancel) simp_all
  finally have "\<lfloor>log 2 \<bar>x\<bar>\<rfloor> \<le> 11" by linarith
  then have "max (\<lfloor>log 2 \<bar>x\<bar>\<rfloor> - 52) (- 1074) \<le> - 41" by simp
  then have "real_of_int (max (\<lfloor>log 2 \<bar>x\<bar>\<rfloor> - 52) (- 1074)) \<le> - real 41" by linarith
  then have "quantum x \<le> 2 powr (- real 41)"
    unfolding quantum_def by (simp only: powr_le_cancel_iff)
  then show ?thesis by (simp only: powr_neg_nat)
qed

lemma fl_error:
  assumes "\<bar>x\<bar> \<le> 2048"
  shows "\<bar>fl x - x\<bar> \<le> 1 / 2 ^ 42"
proof (cases "x = 0")
  case True
  then show ?thesis by (simp add: fl_def)
next
  case False
  let ?q = "quantum x"
  have q: "0 < ?q" by (rule quantum_pos)
  have "fl x - x = (of_int (roundTiesToEven (x / ?q)) - x / ?q) * ?q"
    using False q by (simp add: fl_def field_simps)
  then have "\<bar>fl x - x\<bar> = \<bar>of_int (roundTiesToEven (x / ?q)) - x / ?q\<bar> * ?q"
    using q by (simp add: abs_mult)
  also have "\<dots> \<le> (1 / 2) * ?q"
    using roundTiesToEven_error [of "x / ?q"] q by (intro mult_right_mono) simp_all
  also have "\<dots> \<le> (1 / 2) * (1 / 2 ^ 41)"
    using quantum_le [OF False assms] by (intro mult_left_mono) simp_all
  finally show ?thesis by simp
qed

lemma ln2_ge_half: "1 / 2 \<le> ln (2::real)"
proof -
  have "exp (1 / 2 :: real) ^ 2 = exp 1" by (simp add: exp_double [symmetric])
  then have "exp (1 / 2 :: real) ^ 2 \<le> 2 ^ 2" using exp_le by simp
  then have "exp (1 / 2 :: real) \<le> 2" by (rule power2_le_imp_le) simp
  then have "ln (exp (1 / 2 :: real)) \<le> ln 2" by (subst ln_le_cancel_iff) simp_all
  then show ?thesis by (simp only: ln_exp)
qed

lemma root5_64: "(2 powr (6 / 5) :: real) ^ 5 = 64"
proof -
  have "(2 powr (6 / 5) :: real) ^ 5 = 2 powr ((6 / 5) * real 5)"
    by (simp only: powr_powr powr_realpow [symmetric] powr_gt_zero)
  also have "\<dots> = 2 powr (real 6)" by simp
  also have "\<dots> = 2 ^ 6" by (simp only: powr_realpow [OF zero_less_numeral])
  finally show ?thesis by simp
qed

lemma pow_2_emphasis:
  "fl (2 powr (5404319552844595 / 4503599627370496)) = 1293319370881437 / 562949953421312"
proof -
  define r :: real where "r = 2 powr (6 / 5)"
  define d :: real where "d = 1 / 22517998136852480"
  define z :: real where "z = 2 powr d"
  define y :: real where "y = 2 powr (5404319552844595 / 4503599627370496)"
  have r5: "r ^ 5 = 64" unfolding r_def by (rule root5_64)
  have rpos: "0 < r" unfolding r_def by simp
  have e: "(5404319552844595 / 4503599627370496 :: real) = 6 / 5 - d" unfolding d_def by simp
  have "y = 2 powr (6 / 5 - d)" by (simp only: y_def e)
  then have yrz: "y = r / z" unfolding r_def z_def by (simp only: powr_diff)
  have zexp: "z = exp (d * ln 2)" unfolding z_def by (simp add: powr_def mult.commute)
  have dpos: "0 < d" unfolding d_def by simp
  have zlo: "1 + d / 2 \<le> z"
  proof -
    have "1 + d * ln 2 \<le> exp (d * ln 2)" by (rule exp_ge_add_one_self)
    moreover have "d / 2 \<le> d * ln 2" using ln2_ge_half dpos by (simp add: field_simps)
    ultimately show ?thesis unfolding zexp by linarith
  qed
  have zhi: "z \<le> 1 + 2 * d"
  proof -
    have x0: "0 \<le> d * ln 2" using dpos by simp
    have x1: "d * ln 2 \<le> d" using dpos ln_2_less_1 by (simp add: mult_le_cancel_left1)
    have d1: "d \<le> 1" unfolding d_def by simp
    have "exp (d * ln 2) \<le> 1 + d * ln 2 + (d * ln 2)\<^sup>2"
      using x0 x1 d1 by (intro exp_bound) linarith+
    moreover have "(d * ln 2)\<^sup>2 \<le> d * 1"
      unfolding power2_eq_square using x0 x1 d1
      by (intro mult_mono) linarith+
    ultimately show ?thesis unfolding zexp using x1 by linarith
  qed
  have rlo: "5173277483525748.5 / 2251799813685248 < r"
  proof (rule power_less_imp_less_base)
    show "(5173277483525748.5 / 2251799813685248 :: real) ^ 5 < r ^ 5" unfolding r5 by (simp add: power_divide)
    show "0 \<le> r" using rpos by simp
  qed
  have rhi: "r < 5173277483525748.6 / 2251799813685248"
  proof (rule power_less_imp_less_base)
    show "r ^ 5 < (5173277483525748.6 / 2251799813685248 :: real) ^ 5" unfolding r5 by (simp add: power_divide)
    show "(0::real) \<le> 5173277483525748.6 / 2251799813685248" by simp
  qed
  have zpos: "0 < z" unfolding z_def by simp
  have ylo: "(5173277483525748 - 1 / 2) / 2251799813685248 < y"
  proof -
    have "(5173277483525748 - 1 / 2) / 2251799813685248 * z
            \<le> (5173277483525748 - 1 / 2) / 2251799813685248 * (1 + 2 * d)"
      using zhi by (intro mult_left_mono) simp_all
    also have "\<dots> < 5173277483525748.5 / 2251799813685248" unfolding d_def by simp
    also have "\<dots> < r" by (rule rlo)
    finally show ?thesis unfolding yrz using zpos by (simp add: pos_less_divide_eq)
  qed
  have yhi: "y < (5173277483525748 + 1 / 2) / 2251799813685248"
  proof -
    have "r < 5173277483525748.6 / 2251799813685248" by (rule rhi)
    also have "\<dots> < (5173277483525748 + 1 / 2) / 2251799813685248 * (1 + d / 2)"
      unfolding d_def by simp
    also have "\<dots> \<le> (5173277483525748 + 1 / 2) / 2251799813685248 * z"
      using zlo by (intro mult_left_mono) simp_all
    finally show ?thesis unfolding yrz using zpos by (simp add: pos_divide_less_eq)
  qed
  have b1: "2 \<le> \<bar>y\<bar>" using ylo by simp
  have b2: "\<bar>y\<bar> < 4" using ylo yhi by simp
  have "roundTiesToEven (y * 2 ^ 51) = 5173277483525748"
  proof (rule roundTiesToEven_near)
    show "real_of_int 5173277483525748 - 1 / 2 < y * 2 ^ 51" using ylo by simp
    show "y * 2 ^ 51 < real_of_int 5173277483525748 + 1 / 2" using yhi by simp
  qed
  then have "fl y = 1293319370881437 / 562949953421312"
    using fl_2 [OF b1 b2] by simp
  then show ?thesis unfolding y_def .
qed

section \<open>Properties of the scorers\<close>

lemma calculateScore_refactored_invalid:
  "\<not> isValidLikertValue x \<Longrightarrow> calculateScore_refactored x r = ([InvalidLikertValue x], 0)"
  by (cases x) simp_all

lemma calculateScore_refactored_valid:
  "isValidLikertValue (Num v) \<Longrightarrow>
     calculateScore_refactored (Num v) r = ([], calculateScore v r)"
  by (simp add: calculateScore_def Let_def LIKERT_SCALE_MIDPOINT_def
      SCORE_EMPHASIS_EXPONENT_def LIKERT_SCALE_REVERSE_BASE_def)

lemma sgn_emphasis: "sgn (sgn (x::real) * (\<bar>x\<bar> powr p)) = sgn x"
proof (cases "x = 0")
  case True
  then show ?thesis by simp
next
  case False
  then have "0 < \<bar>x\<bar> powr p" by simp
  then show ?thesis by (simp add: sgn_mult)
qed

text \<open>
  C3. For an integer value in [1,5] and either reversal flag, both scorers return
  sign(deviation) * |deviation| ^ 1.2 with deviation = value' - 3 and value' = 6 - value
  for a reversed item, value otherwise; the refactored scorer reports nothing; a deviation
  of 0 gives exactly 0; the sign of the result is the sign of the deviation.
\<close>

theorem calculateScore_formula:
  fixes v :: int
  assumes "1 \<le> v" and "v \<le> 5"
  shows "let deviation = (if r then 6 - real_of_int v else real_of_int v) - 3 in
           calculateScore (real_of_int v) r = sgn deviation * (\<bar>deviation\<bar> powr 1.2)
         \<and> calculateScore_refactored (Num (real_of_int v)) r
               = ([], sgn deviation * (\<bar>deviation\<bar> powr 1.2))
         \<and> (deviation = 0 \<longrightarrow> calculateScore (real_of_int v) r = 0)
         \<and> sgn (calculateScore (real_of_int v) r) = sgn deviation"
proof -
  have valid: "isValidLikertValue (Num (real_of_int v))"
    using assms by simp
  show ?thesis
    unfolding Let_def calculateScore_refactored_valid [OF valid]
    by (simp add: calculateScore_def Let_def sgn_emphasis)
qed

theorem calculateScore_formula_witness:
  "(1::int) \<le> 5 \<and> (5::int) \<le> 5
   \<and> calculateScore 5 True = - (2 powr 1.2)
   \<and> calculateScore_refactored (Num 5) True = ([], - (2 powr 1.2))
   \<and> sgn (calculateScore 5 True) = - 1"
  using calculateScore_formula [of 5 True] by (simp add: Let_def)

text \<open>
  C2. \<open>calculateScore\<close> of \<open>src/core.js\<close> does not check its argument: the value 6,
  which is not in [1,5], scores 3 ^ 1.2 and not 0, and nothing is reported. The refactored
  scorer reports the value and returns 0 (see also \<open>calculateScore_refactored_invalid\<close>).
\<close>

theorem calculateScore_unchecked:
  "calculateScore 6 False = 3 powr 1.2 \<and> calculateScore 6 False \<noteq> 0
   \<and> calculateScore_refactored (Num 6) False = ([InvalidLikertValue (Num 6)], 0)"
  by (simp add: calculateScore_def)

text \<open>
  In double arithmetic the five answers score \<open>-2.2973967099940698\<close>, \<open>-1\<close>, \<open>0\<close>,
  \<open>1\<close> and \<open>2.2973967099940698\<close>, the last being the double nearest to 2 to the power
  of the double nearest to 1.2.
\<close>

lemma calculateScore_double_5: "calculateScore_double 5 False = 1293319370881437 / 562949953421312"
  by (simp add: calculateScore_double_def fsub_def fmul_def Math_pow_def Let_def fl_exponent fl_units fl_emphasised fl_emphasised_neg pow_2_emphasis)

lemma calculateScore_double_1: "calculateScore_double 1 False = - (1293319370881437 / 562949953421312)"
  by (simp add: calculateScore_double_def fsub_def fmul_def Math_pow_def Let_def fl_exponent fl_units fl_emphasised fl_emphasised_neg pow_2_emphasis)

lemma calculateScore_double_3: "calculateScore_double 3 False = 0"
  by (simp add: calculateScore_double_def fsub_def fmul_def Math_pow_def Let_def fl_0)

lemma calculateScore_double_4: "calculateScore_double 4 False = 1"
  by (simp add: calculateScore_double_def fsub_def fmul_def Math_pow_def Let_def fl_exponent fl_units fl_emphasised fl_emphasised_neg)

lemma calculateScore_double_2: "calculateScore_double 2 False = - 1"
  by (simp add: calculateScore_double_def fsub_def fmul_def Math_pow_def Let_def fl_exponent fl_units fl_emphasised fl_emphasised_neg)

lemmas calculateScore_double_values =
  calculateScore_double_1 calculateScore_double_2 calculateScore_double_3
  calculateScore_double_4 calculateScore_double_5

lemma likert_cases:
  assumes "isValidLikertValue (Num v)"
  shows "v = 1 \<or> v = 2 \<or> v = 3 \<or> v = 4 \<or> v = 5"
proof -
  from assms obtain k :: int where k: "v = of_int k" and "1 \<le> k" "k \<le> 5"
    by (auto simp: Ints_def)
  then have "k = 1 \<or> k = 2 \<or> k = 3 \<or> k = 4 \<or> k = 5" by arith
  with k show ?thesis by auto
qed

lemma calculateScore_double_reverse:
  "calculateScore_double 1 True = 1293319370881437 / 562949953421312"
  "calculateScore_double 2 True = 1"
  "calculateScore_double 3 True = 0"
  "calculateScore_double 4 True = - 1"
  "calculateScore_double 5 True = - (1293319370881437 / 562949953421312)"
  by (simp_all add: calculateScore_double_def fsub_def fmul_def Math_pow_def Let_def fl_0
      fl_exponent fl_units fl_emphasised fl_emphasised_neg fl_ints pow_2_emphasis)

lemma calculateScore_double_bound:
  assumes "isValidLikertValue (Num v)"
  shows "\<bar>calculateScore_double v b\<bar> \<le> 3"
  using likert_cases [OF assms]
  by (cases b) (auto simp: calculateScore_double_values calculateScore_double_reverse)

section \<open>Properties of the normaliser\<close>


lemma clamp_round2: "max 0 (min 100 (js_round x)) = js_round (max 0 (min 100 x))"
  unfolding js_round_def max_def min_def by (auto; linarith)

lemma js_round_clamp_bounds: "0 \<le> js_round (max 0 (min 100 x)) \<and> js_round (max 0 (min 100 x)) \<le> 100"
  unfolding js_round_def max_def min_def by (auto; linarith)

lemma normalizeScore_range: "0 \<le> normalizeScore x \<and> normalizeScore x \<le> 100"
  by (simp add: normalizeScore_def)

lemma normalizeScore_refactored_range:
  "0 \<le> normalizeScore_refactored x \<and> normalizeScore_refactored x \<le> 100"
  unfolding normalizeScore_refactored_def Let_def SCORE_NORMALIZATION_OUTPUT_MIN_def
    SCORE_NORMALIZATION_OUTPUT_MAX_def
  by (rule js_round_clamp_bounds)

lemma normalizeScore_linear:
  "normalizeScore x = max 0 (min 100 (js_round ((x + 20) / 40 * 100)))"
  by (simp add: normalizeScore_def SCORE_MIN_def SCORE_MAX_def)

lemma normalizeScore_refactored_eq: "normalizeScore_refactored x = normalizeScore x"
  by (simp add: normalizeScore_refactored_def normalizeScore_def Let_def SCORE_MIN_def SCORE_MAX_def
      SCORE_NORMALIZATION_MIN_def SCORE_NORMALIZATION_MAX_def SCORE_NORMALIZATION_OUTPUT_MIN_def
      SCORE_NORMALIZATION_OUTPUT_MAX_def clamp_round2)

lemma normalizeScore_examples:
  "normalizeScore (- 20) = 0 \<and> normalizeScore 0 = 50 \<and> normalizeScore 20 = 100
   \<and> normalizeScore (- 999) = 0 \<and> normalizeScore 999 = 100"
  by (simp add: normalizeScore_def SCORE_MIN_def SCORE_MAX_def js_round_def)

lemma two_le_emphasis: "2 \<le> (2::real) powr 1.2"
  using powr_mono [of 1 "1.2" "2::real"] by simp

text \<open>
  C8. The display value the older applications compute in place of \<open>normalizeScore\<close>
  maps [-10, 10] and has no upper bound: the raw score 20 is shown as 150 and 999 as 5045,
  where the normaliser is to give 100, and the score of six answers of 5 to the questions
  of one function is shown as 110 or more. (\<open>normalizeScore\<close> itself meets the claim, by
  the lemmas above.)
\<close>

theorem displayValue_legacy_unbounded:
  "displayValue_legacy 20 = 150 \<and> displayValue_legacy 999 = 5045
   \<and> displayValue_legacy (- 20) = 0 \<and> displayValue_legacy 0 = 50
   \<and> 110 \<le> displayValue_legacy (6 * calculateScore 5 False)"
proof -
  have "110 \<le> displayValue_legacy (6 * calculateScore 5 False)"
    using two_le_emphasis
    by (simp add: displayValue_legacy_def js_round_def calculateScore_def le_floor_iff max_def)
  then show ?thesis
    by (simp add: displayValue_legacy_def js_round_def)
qed

section \<open>Properties of the classifier\<close>


























section \<open>Properties of the shuffle\<close>

lemma random_index:
  assumes "0 \<le> r" and "r < 1"
  shows "nat \<lfloor>r * (real i + 1)\<rfloor> \<le> i"
proof -
  have "r * (real i + 1) < 1 * (real i + 1)"
    using assms(2) by (intro mult_strict_right_mono) auto
  then have "r * (real i + 1) < of_int (int i + 1)"
    by simp
  then have "\<lfloor>r * (real i + 1)\<rfloor> < int i + 1"
    by (simp only: floor_less_iff)
  then show ?thesis by linarith
qed

lemma fisherYatesLoop_mset:
  assumes "\<forall>k. 0 \<le> rnd k \<and> rnd k < 1"
  shows "n = 0 \<or> n < length xs \<Longrightarrow> mset (fst (fisherYatesLoop rnd k n xs)) = mset xs"
proof (induction n arbitrary: k xs)
  case 0
  then show ?case by simp
next
  case (Suc n)
  let ?j = "nat \<lfloor>rnd k * (real (Suc n) + 1)\<rfloor>"
  from Suc.prems have i: "Suc n < length xs" by simp
  have "?j \<le> Suc n" using assms by (intro random_index) auto
  with i have j: "?j < length xs" by simp
  let ?ys = "xs[Suc n := xs ! ?j, ?j := xs ! Suc n]"
  have "mset ?ys = mset xs" using j i by (rule mset_swap)
  moreover have "n = 0 \<or> n < length ?ys" using i by simp
  then have "mset (fst (fisherYatesLoop rnd (Suc k) n ?ys)) = mset ?ys" by (rule Suc.IH)
  ultimately show ?case by (simp add: Let_def)
qed

lemma fisherYatesLoop_randoms: "snd (fisherYatesLoop rnd k n xs) = k + n"
  by (induction n arbitrary: k xs) (simp_all add: Let_def)

lemma fisherYatesShuffle_mset:
  assumes "\<forall>k. 0 \<le> rnd k \<and> rnd k < 1"
  shows "mset (fst (fisherYatesShuffle rnd k xs)) = mset xs"
  unfolding fisherYatesShuffle_def
  by (rule fisherYatesLoop_mset [OF assms]) (cases xs; simp)

lemma fisherYatesShuffle_randoms: "snd (fisherYatesShuffle rnd k xs) = k + (length xs - 1)"
  by (simp add: fisherYatesShuffle_def fisherYatesLoop_randoms)

lemma shuffleLoop_outcome:
  "\<forall>k. 0 \<le> rnd k \<and> rnd k < 1 \<Longrightarrow> attempt \<le> maxAttempts \<Longrightarrow>
     mset (so_questions (shuffleLoop rnd k attempt questions)) = mset questions
   \<and> attempt \<le> so_attempts (shuffleLoop rnd k attempt questions)
   \<and> so_attempts (shuffleLoop rnd k attempt questions) \<le> maxAttempts
   \<and> (so_fallback (shuffleLoop rnd k attempt questions)
        \<longrightarrow> so_attempts (shuffleLoop rnd k attempt questions) = maxAttempts)
   \<and> (\<not> so_fallback (shuffleLoop rnd k attempt questions)
        \<longrightarrow> \<not> hasConsecutive (so_questions (shuffleLoop rnd k attempt questions)))
   \<and> so_randoms (shuffleLoop rnd k attempt questions)
        \<le> k + (maxAttempts + 1 - attempt) * (length questions - 1)"
proof (induction rnd k attempt questions rule: shuffleLoop.induct)
  case (1 rnd k attempt questions)
  obtain shuffled k' where f: "fisherYatesShuffle rnd k questions = (shuffled, k')"
    by (cases "fisherYatesShuffle rnd k questions")
  have m: "mset shuffled = mset questions"
    using fisherYatesShuffle_mset [OF "1.prems"(1), of k questions] by (simp add: f)
  have k': "k' = k + (length questions - 1)"
    using fisherYatesShuffle_randoms [of rnd k questions] by (simp add: f)
  have one: "k' \<le> k + (maxAttempts + 1 - attempt) * (length questions - 1)"
    using "1.prems"(2) unfolding k' by (cases "maxAttempts + 1 - attempt") simp_all
  show ?case
  proof (cases "attempt < maxAttempts")
    case False
    with "1.prems"(2) have "attempt = maxAttempts" by simp
    then show ?thesis
      using one by (subst (1 2 3 4 5 6 7 8) shuffleLoop.simps) (simp add: f m)
  next
    case True
    show ?thesis
    proof (cases "hasConsecutive shuffled")
      case False
      with True show ?thesis
        using one by (subst (1 2 3 4 5 6 7 8) shuffleLoop.simps) (simp add: f m)
    next
      case c: True
      have eq: "shuffleLoop rnd k attempt questions = shuffleLoop rnd k' (attempt + 1) questions"
        by (subst shuffleLoop.simps) (simp add: f True c)
      have "maxAttempts + 1 - attempt = Suc (maxAttempts + 1 - (attempt + 1))"
        using True by simp
      then have step: "k' + (maxAttempts + 1 - (attempt + 1)) * (length questions - 1)
          = k + (maxAttempts + 1 - attempt) * (length questions - 1)"
        unfolding k' by simp
      have "attempt + 1 \<le> maxAttempts" using True by simp
      with "1.IH" [OF True f [symmetric] _ "1.prems"(1)] c
      show ?thesis
        unfolding eq step [symmetric] by simp
    qed
  qed
qed

text \<open>
  C9. Whatever numbers in [0,1) \<open>Math.random\<close> returns, the constrained shuffle returns
  (the model is a total function, its loop bounded by \<open>maxAttempts\<close>): it makes at most
  1000 passes of its loop, the fallback is taken only after 1000 passes, it calls
  \<open>Math.random\<close> at most 1001 * (n - 1) times for n questions, and on both paths what it
  returns is a permutation of its input (the same multiset of questions, hence of ids). Off
  the fallback path no two neighbours have the same type.
\<close>

theorem shuffleQuestionsWithConstraints_permutation:
  assumes "\<forall>k. 0 \<le> rnd k \<and> rnd k < 1"
  shows "let r = shuffleQuestionsWithConstraints rnd questions in
           mset (so_questions r) = mset questions
         \<and> image_mset qid (mset (so_questions r)) = image_mset qid (mset questions)
         \<and> so_attempts r \<le> 1000
         \<and> (so_fallback r \<longrightarrow> so_attempts r = 1000)
         \<and> (\<not> so_fallback r \<longrightarrow> \<not> hasConsecutive (so_questions r))
         \<and> so_randoms r \<le> 1001 * (length questions - 1)"
proof -
  let ?r = "shuffleLoop rnd 0 0 questions"
  have "mset (so_questions ?r) = mset questions
      \<and> so_attempts ?r \<le> maxAttempts
      \<and> (so_fallback ?r \<longrightarrow> so_attempts ?r = maxAttempts)
      \<and> (\<not> so_fallback ?r \<longrightarrow> \<not> hasConsecutive (so_questions ?r))
      \<and> so_randoms ?r \<le> 0 + (maxAttempts + 1 - 0) * (length questions - 1)"
    using shuffleLoop_outcome [OF assms, of 0 0 questions] by simp
  then show ?thesis
    by (simp add: shuffleQuestionsWithConstraints_def Let_def maxAttempts_def)
qed

lemma shuffleLoop_fallback:
  "\<forall>k. hasConsecutive (fst (fisherYatesShuffle rnd k questions)) \<Longrightarrow>
   attempt \<le> maxAttempts \<Longrightarrow>
     so_fallback (shuffleLoop rnd k attempt questions)
     \<and> so_attempts (shuffleLoop rnd k attempt questions) = maxAttempts"
proof (induction rnd k attempt questions rule: shuffleLoop.induct)
  case (1 rnd k attempt questions)
  obtain shuffled k' where f: "fisherYatesShuffle rnd k questions = (shuffled, k')"
    by (cases "fisherYatesShuffle rnd k questions")
  have c: "hasConsecutive shuffled" using "1.prems"(1) by (metis f fst_conv)
  show ?case
  proof (cases "attempt < maxAttempts")
    case False
    with "1.prems"(2) have "attempt = maxAttempts" by simp
    then show ?thesis
      by (subst (1 2) shuffleLoop.simps) (simp add: f)
  next
    case True
    have eq: "shuffleLoop rnd k attempt questions = shuffleLoop rnd k' (attempt + 1) questions"
      by (subst shuffleLoop.simps) (simp add: f True c)
    show ?thesis
      unfolding eq using "1.IH" [OF True f [symmetric] _ "1.prems"(1)] c True by simp
  qed
qed

theorem shuffleQuestionsWithConstraints_permutation_witness:
  "(\<forall>k. (0::real) \<le> (\<lambda>k. 0) k \<and> (\<lambda>k. 0::real) k < 1)
   \<and> (\<forall>k. (0::real) \<le> (\<lambda>k. 3 / 4) k \<and> (\<lambda>k. 3 / 4 :: real) k < 1)
   \<and> mset (so_questions (shuffleQuestionsWithConstraints (\<lambda>k. 3 / 4) demoQuestions)) = mset demoQuestions
   \<and> so_attempts (shuffleQuestionsWithConstraints (\<lambda>k. 3 / 4) demoQuestions) \<le> 1000
   \<and> so_fallback (shuffleQuestionsWithConstraints (\<lambda>k. 0) sameTypeQuestions)
   \<and> so_attempts (shuffleQuestionsWithConstraints (\<lambda>k. 0) sameTypeQuestions) = 1000
   \<and> mset (so_questions (shuffleQuestionsWithConstraints (\<lambda>k. 0) sameTypeQuestions)) = mset sameTypeQuestions"
proof -
  have rnd: "\<forall>k. (0::real) \<le> (\<lambda>k. 0) k \<and> (\<lambda>k. 0::real) k < 1" by simp
  have rnd': "\<forall>k. (0::real) \<le> (\<lambda>k. 3 / 4) k \<and> (\<lambda>k. 3 / 4 :: real) k < 1" by simp
  have fb: "so_fallback (shuffleQuestionsWithConstraints (\<lambda>k. 0) sameTypeQuestions)"
    unfolding shuffleQuestionsWithConstraints_def
    using shuffleLoop_fallback [of "\<lambda>k. 0" sameTypeQuestions 0 0]
    by (simp add: sameTypeQuestions_def fisherYatesShuffle_def Let_def)
  show ?thesis
    using shuffleQuestionsWithConstraints_permutation [OF rnd', of demoQuestions]
      shuffleQuestionsWithConstraints_permutation [OF rnd, of sameTypeQuestions] fb
    by (simp add: Let_def)
qed

section \<open>Properties of the session\<close>

lemma recordedScore_Cons:
  "recordedScore (x # xs) ans d =
     (if qtype x = d
      then (case ans (qid x) of None \<Rightarrow> 0 | Some a \<Rightarrow> calculateScore (ans_value a) (ans_isReverse a))
      else 0) + recordedScore xs ans d"
  by (simp add: recordedScore_def)

lemma recordedScore_Nil: "recordedScore [] ans d = 0"
  by (simp add: recordedScore_def)

lemma recordedScore_other:
  "i \<notin> qid ` set xs \<Longrightarrow> recordedScore xs (ans(i \<mapsto> a)) d = recordedScore xs ans d"
  by (induction xs) (auto simp: recordedScore_Cons recordedScore_Nil)

lemma recordedScore_sum:
  assumes "distinct (map qid questions)"
  shows "recordedScore questions ans d =
           (\<Sum>i \<in> answersOfType questions ans d.
              case ans i of None \<Rightarrow> 0
              | Some a \<Rightarrow> calculateScore (ans_value a) (ans_isReverse a))"
proof -
  let ?g = "\<lambda>i. case ans i of None \<Rightarrow> 0 | Some a \<Rightarrow> calculateScore (ans_value a) (ans_isReverse a)"
  let ?xs = "filter (\<lambda>q. qtype q = d) questions"
  let ?S = "set (map qid ?xs)"
  have d: "distinct (map qid ?xs)"
    using assms by (rule distinct_map_filter)
  have "recordedScore questions ans d = sum_list (map ?g (map qid ?xs))"
    by (simp add: recordedScore_def comp_def)
  also have "\<dots> = sum ?g ?S"
    using d by (rule sum_list_distinct_conv_sum_set)
  also have "\<dots> = sum ?g (answersOfType questions ans d)"
  proof (rule sum.mono_neutral_right)
    show "finite ?S" by simp
    show "answersOfType questions ans d \<subseteq> ?S"
      by (auto simp: answersOfType_def)
    show "\<forall>i \<in> ?S - answersOfType questions ans d. ?g i = 0"
      by (auto simp: answersOfType_def split: option.splits)
  qed
  finally show ?thesis .
qed

lemma recordedScore_update:
  assumes "distinct (map qid xs)" and "q \<in> set xs"
  shows "recordedScore xs (ans(qid q \<mapsto> a)) d =
           recordedScore xs ans d
           - (if qtype q = d
              then (case ans (qid q) of None \<Rightarrow> 0
                    | Some old \<Rightarrow> calculateScore (ans_value old) (ans_isReverse old))
              else 0)
           + (if qtype q = d then calculateScore (ans_value a) (ans_isReverse a) else 0)"
  using assms
proof (induction xs)
  case Nil
  then show ?case by simp
next
  case (Cons x xs)
  show ?case
  proof (cases "x = q")
    case True
    with Cons.prems have "qid q \<notin> qid ` set xs" by auto
    then have r: "recordedScore xs (ans(qid q \<mapsto> a)) d = recordedScore xs ans d"
      by (rule recordedScore_other)
    show ?thesis unfolding True recordedScore_Cons r by simp
  next
    case False
    with Cons.prems have q: "q \<in> set xs" and d: "distinct (map qid xs)" by auto
    from q Cons.prems(1) have "qid x \<noteq> qid q" by auto
    then show ?thesis unfolding recordedScore_Cons Cons.IH [OF d q] by simp
  qed
qed

lemma recordAnswer_fields:
  "currentQuestion (recordAnswer q v st) = currentQuestion st"
  "showResult (recordAnswer q v st) = showResult st"
  "answers (recordAnswer q v st) = (answers st)(qid q \<mapsto> \<lparr>ans_value = v, ans_isReverse = isReverseOf q\<rparr>)"
  "functionScores (recordAnswer q v st) d =
     (if d = qtype q
      then functionScores st d
           - (case answers st (qid q) of None \<Rightarrow> 0
              | Some old \<Rightarrow> calculateScore (ans_value old) (isReverseOf q))
           + calculateScore v (isReverseOf q)
      else functionScores st d)"
  by (simp_all add: recordAnswer_def isReverseOf_def Let_def split: option.splits)

lemma recordAnswer_more: "quiz_state.more (recordAnswer q v st) = quiz_state.more st"
  by (simp add: recordAnswer_def Let_def)

lemma recordAnswer_twice: "recordAnswer q v2 (recordAnswer q v1 st) = recordAnswer q v2 st"
  by (rule quiz_state.equality) (simp_all add: recordAnswer_fields recordAnswer_more fun_eq_iff)

lemma handleAnswer_records:
  assumes "\<not> isProcessing a" and "currentQuestion (state a) < length questions"
  shows "state (snd (handleAnswer questions v a))
           = recordAnswer (questions ! currentQuestion (state a)) v (state a)"
    and "isProcessing (snd (handleAnswer questions v a))"
    and "pending (snd (handleAnswer questions v a))
           = Some (if currentQuestion (state a) < length questions - 1 then Advance else ShowResult)"
    and "fst (handleAnswer questions v a) = None"
  using assms by (simp_all add: handleAnswer_def Let_def recordAnswer_fields)

lemma scoresMatchAnswers_recordAnswer:
  assumes "distinct (map qid questions)" and "q \<in> set questions"
    and inv: "scoresMatchAnswers questions st"
  shows "scoresMatchAnswers questions (recordAnswer q v st)"
proof -
  have old: "(case answers st (qid q) of None \<Rightarrow> 0
              | Some old \<Rightarrow> calculateScore (ans_value old) (isReverseOf q))
           = (case answers st (qid q) of None \<Rightarrow> 0
              | Some old \<Rightarrow> calculateScore (ans_value old) (ans_isReverse old))"
    using inv assms(2) by (auto simp: scoresMatchAnswers_def split: option.splits)
  have inj: "inj_on qid (set questions)"
    using assms(1) by (simp add: distinct_map)
  have scores: "functionScores (recordAnswer q v st) d
            = recordedScore questions (answers (recordAnswer q v st)) d" for d
    using inv
    by (simp add: recordAnswer_fields old recordedScore_update [OF assms(1,2)]
        scoresMatchAnswers_def)
  have dom: "dom (answers (recordAnswer q v st)) \<subseteq> qid ` set questions"
    using inv assms(2) by (auto simp: recordAnswer_fields scoresMatchAnswers_def)
  have flag: "ans_isReverse a = isReverseOf q'"
    if "q' \<in> set questions" "answers (recordAnswer q v st) (qid q') = Some a" for q' a
  proof (cases "qid q' = qid q")
    case True
    with inj that(1) assms(2) have "q' = q" by (auto dest: inj_onD)
    with that(2) show ?thesis by (auto simp: recordAnswer_fields)
  next
    case False
    with that inv show ?thesis by (auto simp: recordAnswer_fields scoresMatchAnswers_def)
  qed
  show ?thesis
    unfolding scoresMatchAnswers_def using scores dom flag by blast
qed

lemma scoresMatchAnswers_createDefaultState: "scoresMatchAnswers questions createDefaultState"
  by (simp add: scoresMatchAnswers_def createDefaultState_def recordedScore_def)

lemma scoresMatchAnswers_position:
  "scoresMatchAnswers questions (st\<lparr>currentQuestion := n\<rparr>) = scoresMatchAnswers questions st"
  "scoresMatchAnswers questions (st\<lparr>showResult := b\<rparr>) = scoresMatchAnswers questions st"
  by (simp_all add: scoresMatchAnswers_def)

lemma scoresMatchAnswers_handleAnswer:
  assumes "distinct (map qid questions)" and "scoresMatchAnswers questions (state a)"
  shows "scoresMatchAnswers questions (state (snd (handleAnswer questions v a)))"
  using assms
  by (auto simp: handleAnswer_def Let_def intro!: scoresMatchAnswers_recordAnswer)

lemma scoresMatchAnswers_step:
  assumes "distinct (map qid questions)" and "scoresMatchAnswers questions (state a)"
  shows "scoresMatchAnswers questions (state (step questions a ev))"
proof (cases ev)
  case (Answer v)
  then show ?thesis using scoresMatchAnswers_handleAnswer [OF assms] by simp
next
  case GoBack
  then show ?thesis using assms(2) by (simp add: goBack_def scoresMatchAnswers_position)
next
  case Reset
  then show ?thesis by (simp add: reset_def scoresMatchAnswers_createDefaultState)
next
  case TimerFires
  then show ?thesis
    using assms(2)
    by (cases "pending a"; cases "the (pending a)")
       (simp_all add: timerFires_def scoresMatchAnswers_position)
qed

lemma scoresMatchAnswers_foldl:
  assumes "distinct (map qid questions)"
  shows "scoresMatchAnswers questions (state a) \<Longrightarrow>
         scoresMatchAnswers questions (state (foldl (step questions) a events))"
  by (induction events arbitrary: a) (simp_all add: scoresMatchAnswers_step [OF assms])

lemma scoresMatchAnswers_run:
  assumes "distinct (map qid questions)"
  shows "scoresMatchAnswers questions (state (run questions events))"
  unfolding run_def
  by (rule scoresMatchAnswers_foldl [OF assms])
     (simp add: initialApp_def scoresMatchAnswers_createDefaultState)

lemma scoresMatchAnswers_reset: "scoresMatchAnswers questions (state (reset a))"
  by (simp add: reset_def scoresMatchAnswers_createDefaultState)

lemma reset_clears:
  "answers (state (reset a)) = Map.empty
   \<and> functionScores (state (reset a)) d = 0
   \<and> currentQuestion (state (reset a)) = 0
   \<and> \<not> showResult (state (reset a))"
  by (simp add: reset_def createDefaultState_def)

lemma demoSession_scores:
  "functionScores (state (run demoQuestions demoSession)) Ni = 2 powr 1.2"
  "functionScores (state (run demoQuestions demoSession)) Ne = - 1"
  by (simp_all add: run_def demoSession_def demoQuestions_def initialApp_def createDefaultState_def
      handleAnswer_def recordAnswer_def timerFires_def goBack_def calculateScore_def Let_def)

section \<open>Properties of the older sessions\<close>

lemma recordAnswer_legacy_fields:
  "answers_legacy (recordAnswer_legacy q v a) = (answers_legacy a)(qid q \<mapsto> v)"
  "functionScores_legacy (recordAnswer_legacy q v a) d =
     (if d = qtype q
      then functionScores_legacy a d
           - (case answers_legacy a (qid q) of None \<Rightarrow> 0 | Some old \<Rightarrow> calculateScore old False)
           + calculateScore v False
      else functionScores_legacy a d)"
  "l_state (recordAnswer_legacy q v a) = l_state a"
  "defaultState (recordAnswer_legacy q v a) = defaultState a"
  "l_isProcessing (recordAnswer_legacy q v a) = l_isProcessing a"
  "l_pending (recordAnswer_legacy q v a) = l_pending a"
  by (simp_all add: recordAnswer_legacy_def answers_legacy_def functionScores_legacy_def Let_def
      split: option.splits)

lemma recordAnswer_legacy_frame:
  "(d \<noteq> qtype q \<longrightarrow> functionScores_legacy (recordAnswer_legacy q v a) d = functionScores_legacy a d)
   \<and> (i \<noteq> qid q \<longrightarrow> answers_legacy (recordAnswer_legacy q v a) i = answers_legacy a i)"
  by (simp add: recordAnswer_legacy_fields)

lemma recordAnswer_legacy_twice:
  "functionScores_legacy (recordAnswer_legacy q v2 (recordAnswer_legacy q v1 a))
     = functionScores_legacy (recordAnswer_legacy q v2 a)
   \<and> answers_legacy (recordAnswer_legacy q v2 (recordAnswer_legacy q v1 a))
     = answers_legacy (recordAnswer_legacy q v2 a)"
  by (simp add: recordAnswer_legacy_fields fun_eq_iff)

lemma handleAnswer_legacy_frame:
  assumes "l_currentQuestion (l_state b) < length questions"
  shows "(d \<noteq> qtype (questions ! l_currentQuestion (l_state b)) \<longrightarrow>
            functionScores_legacy (snd (handleAnswer_legacy questions v b)) d = functionScores_legacy b d)
       \<and> (i \<noteq> qid (questions ! l_currentQuestion (l_state b)) \<longrightarrow>
            answers_legacy (snd (handleAnswer_legacy questions v b)) i = answers_legacy b i)"
proof -
  have same: "functionScores_legacy (c\<lparr>l_isProcessing := p\<rparr>) = functionScores_legacy c"
      "functionScores_legacy (c\<lparr>l_pending := t\<rparr>) = functionScores_legacy c"
      "answers_legacy (c\<lparr>l_isProcessing := p\<rparr>) = answers_legacy c"
      "answers_legacy (c\<lparr>l_pending := t\<rparr>) = answers_legacy c" for c p t
    by (simp_all add: functionScores_legacy_def answers_legacy_def)
  show ?thesis
    using assms by (simp add: handleAnswer_legacy_def Let_def same recordAnswer_legacy_fields)
qed

lemma storedAnswers_legacy_recordAnswer:
  "storedAnswers_legacy (recordAnswer_legacy q v a)
     = (storedAnswers_legacy a)(qid q \<mapsto> \<lparr>ans_value = v, ans_isReverse = False\<rparr>)"
  by (simp add: storedAnswers_legacy_def recordAnswer_legacy_fields fun_eq_iff)

lemma scoresMatchAnswers_legacy_recordAnswer:
  assumes "distinct (map qid questions)" and "q \<in> set questions"
    and inv: "scoresMatchAnswers_legacy questions a"
  shows "scoresMatchAnswers_legacy questions (recordAnswer_legacy q v a)"
proof -
  have old: "(case answers_legacy a (qid q) of None \<Rightarrow> 0 | Some old \<Rightarrow> calculateScore old False)
           = (case storedAnswers_legacy a (qid q) of None \<Rightarrow> 0
              | Some old \<Rightarrow> calculateScore (ans_value old) (ans_isReverse old))"
    by (simp add: storedAnswers_legacy_def split: option.splits)
  have "functionScores_legacy (recordAnswer_legacy q v a) d
            = recordedScore questions (storedAnswers_legacy (recordAnswer_legacy q v a)) d" for d
    using inv
    by (simp add: recordAnswer_legacy_fields old storedAnswers_legacy_recordAnswer
        recordedScore_update [OF assms(1,2)] scoresMatchAnswers_legacy_def)
  moreover have "dom (answers_legacy (recordAnswer_legacy q v a)) \<subseteq> qid ` set questions"
    using inv assms(2) by (auto simp: recordAnswer_legacy_fields scoresMatchAnswers_legacy_def)
  ultimately show ?thesis
    using inv by (simp add: scoresMatchAnswers_legacy_def recordAnswer_legacy_fields)
qed

lemma scoresMatchAnswers_legacy_step:
  assumes "distinct (map qid questions)" and inv: "scoresMatchAnswers_legacy questions a"
  shows "scoresMatchAnswers_legacy questions (step_legacy questions a ev)"
proof (cases ev)
  case (Answer v)
  have same: "scoresMatchAnswers_legacy questions (b\<lparr>l_isProcessing := p\<rparr>)
                = scoresMatchAnswers_legacy questions b"
       "scoresMatchAnswers_legacy questions (b\<lparr>l_pending := t\<rparr>)
                = scoresMatchAnswers_legacy questions b" for b p t
    by (simp_all add: scoresMatchAnswers_legacy_def storedAnswers_legacy_def answers_legacy_def
        functionScores_legacy_def)
  show ?thesis
    using inv
    by (auto simp: Answer handleAnswer_legacy_def Let_def same
        intro!: scoresMatchAnswers_legacy_recordAnswer [OF assms(1)])
next
  case GoBack
  then show ?thesis
    using inv
    by (simp add: goBack_legacy_def scoresMatchAnswers_legacy_def storedAnswers_legacy_def
        answers_legacy_def functionScores_legacy_def)
next
  case Reset
  then show ?thesis
    using inv
    by (simp add: reset_legacy_def scoresMatchAnswers_legacy_def storedAnswers_legacy_def
        answers_legacy_def functionScores_legacy_def)
next
  case TimerFires
  then show ?thesis
    using inv
    by (cases "l_pending a"; cases "the (l_pending a)")
       (simp_all add: timerFires_legacy_def scoresMatchAnswers_legacy_def
          storedAnswers_legacy_def answers_legacy_def functionScores_legacy_def)
qed

lemma scoresMatchAnswers_legacy_run:
  assumes "distinct (map qid questions)"
  shows "scoresMatchAnswers_legacy questions (run_legacy questions events)"
proof -
  have "scoresMatchAnswers_legacy questions a \<Longrightarrow>
        scoresMatchAnswers_legacy questions (foldl (step_legacy questions) a events)" for a
    by (induction events arbitrary: a) (simp_all add: scoresMatchAnswers_legacy_step [OF assms])
  moreover have "scoresMatchAnswers_legacy questions legacy_initialApp"
    by (simp add: scoresMatchAnswers_legacy_def legacy_initialApp_def storedAnswers_legacy_def
        answers_legacy_def functionScores_legacy_def recordedScore_def Let_def)
  ultimately show ?thesis by (simp add: run_legacy_def)
qed

text \<open>
  What \<open>reset\<close> of the older applications resets: the position and the result flag, and
  neither the answers nor the scores.
\<close>

lemma reset_legacy_effect:
  assumes "scoresMatchAnswers_legacy questions a"
  shows "answers_legacy (reset_legacy a) = answers_legacy a
       \<and> functionScores_legacy (reset_legacy a) = functionScores_legacy a
       \<and> l_currentQuestion (l_state (reset_legacy a)) = l_currentQuestion (defaultState a)
       \<and> l_showResult (l_state (reset_legacy a)) = l_showResult (defaultState a)"
  using assms
  by (simp add: reset_legacy_def scoresMatchAnswers_legacy_def answers_legacy_def
      functionScores_legacy_def)

section \<open>Properties of the session in double arithmetic\<close>

lemma recordedScore_double_Cons:
  "recordedScore_double (x # xs) ans d =
     (if qtype x = d
      then (case ans (qid x) of None \<Rightarrow> 0
            | Some a \<Rightarrow> calculateScore_double (ans_value a) (ans_isReverse a))
      else 0) + recordedScore_double xs ans d"
  by (simp add: recordedScore_double_def)

lemma recordedScore_double_Nil: "recordedScore_double [] ans d = 0"
  by (simp add: recordedScore_double_def)

lemma recordedScore_double_other:
  "i \<notin> qid ` set xs \<Longrightarrow> recordedScore_double xs (ans(i \<mapsto> a)) d = recordedScore_double xs ans d"
  by (induction xs) (auto simp: recordedScore_double_Cons recordedScore_double_Nil)

lemma recordedScore_double_update:
  assumes "distinct (map qid xs)" and "q \<in> set xs"
  shows "recordedScore_double xs (ans(qid q \<mapsto> a)) d =
           recordedScore_double xs ans d
           - (if qtype q = d
              then (case ans (qid q) of None \<Rightarrow> 0
                    | Some old \<Rightarrow> calculateScore_double (ans_value old) (ans_isReverse old))
              else 0)
           + (if qtype q = d then calculateScore_double (ans_value a) (ans_isReverse a) else 0)"
  using assms
proof (induction xs)
  case Nil
  then show ?case by simp
next
  case (Cons x xs)
  show ?case
  proof (cases "x = q")
    case True
    with Cons.prems have "qid q \<notin> qid ` set xs" by auto
    then have r: "recordedScore_double xs (ans(qid q \<mapsto> a)) d = recordedScore_double xs ans d"
      by (rule recordedScore_double_other)
    show ?thesis unfolding True recordedScore_double_Cons r by simp
  next
    case False
    with Cons.prems have q: "q \<in> set xs" and d: "distinct (map qid xs)" by auto
    from q Cons.prems(1) have "qid x \<noteq> qid q" by auto
    then show ?thesis unfolding recordedScore_double_Cons Cons.IH [OF d q] by simp
  qed
qed

lemma recordedScore_double_bound:
  assumes "\<forall>q \<in> set xs. \<forall>a. ans (qid q) = Some a \<longrightarrow> isValidLikertValue (Num (ans_value a))"
  shows "\<bar>recordedScore_double xs ans d\<bar> \<le> 3 * real (length xs)"
  using assms
proof (induction xs)
  case Nil
  then show ?case by (simp add: recordedScore_double_Nil)
next
  case (Cons x xs)
  define g where "g = (case ans (qid x) of None \<Rightarrow> 0
        | Some a \<Rightarrow> calculateScore_double (ans_value a) (ans_isReverse a))"
  have g: "\<bar>g\<bar> \<le> 3"
    unfolding g_def using Cons.prems
    by (auto split: option.splits intro: calculateScore_double_bound)
  have r: "\<bar>recordedScore_double xs ans d\<bar> \<le> 3 * real (length xs)"
    using Cons by simp
  have "recordedScore_double (x # xs) ans d
          = (if qtype x = d then g else 0) + recordedScore_double xs ans d"
    unfolding g_def by (rule recordedScore_double_Cons)
  moreover have "\<bar>(if qtype x = d then g else 0) + recordedScore_double xs ans d\<bar>
          \<le> 3 + 3 * real (length xs)"
    using g r by (cases "qtype x = d") auto
  ultimately show ?case by simp
qed

lemma recordAnswer_double_fields:
  "currentQuestion (recordAnswer_double q v st) = currentQuestion st"
  "showResult (recordAnswer_double q v st) = showResult st"
  "answers (recordAnswer_double q v st)
     = (answers st)(qid q \<mapsto> \<lparr>ans_value = v, ans_isReverse = isReverseOf q\<rparr>)"
  "functionScores (recordAnswer_double q v st) d =
     (if d = qtype q
      then fadd (case answers st (qid q) of
                   None \<Rightarrow> functionScores st d
                 | Some old \<Rightarrow> fsub (functionScores st d)
                                 (calculateScore_double (ans_value old) (isReverseOf q)))
                (calculateScore_double v (isReverseOf q))
      else functionScores st d)"
  by (simp_all add: recordAnswer_double_def isReverseOf_def Let_def split: option.splits)


lemma fadd_error: "\<bar>x + y\<bar> \<le> 2048 \<Longrightarrow> \<bar>fadd x y - (x + y)\<bar> \<le> 1 / 2 ^ 42"
  unfolding fadd_def by (rule fl_error)

lemma fsub_error: "\<bar>x - y\<bar> \<le> 2048 \<Longrightarrow> \<bar>fsub x y - (x - y)\<bar> \<le> 1 / 2 ^ 42"
  unfolding fsub_def by (rule fl_error)

lemma two_roundings: "(1::real) / 2 ^ 41 = 1 / 2 ^ 42 + 1 / 2 ^ 42"
  by simp

lemma record_error:
  assumes s: "\<bar>s - S\<bar> \<le> err" and err: "err \<le> 1" and S: "\<bar>S\<bar> \<le> 768"
    and c: "\<bar>c\<bar> \<le> 3"
  shows "\<bar>fadd s c - (S + c)\<bar> \<le> err + 1 / 2 ^ 41"
proof -
  have "\<bar>s + c\<bar> \<le> 2048" using s err S c by linarith
  then have "\<bar>fadd s c - (s + c)\<bar> \<le> 1 / 2 ^ 42" by (rule fadd_error)
  moreover have "(0::real) \<le> 1 / 2 ^ 42" by simp
  ultimately show ?thesis unfolding two_roundings using s by linarith
qed

lemma revise_error:
  assumes s: "\<bar>s - S\<bar> \<le> err" and err: "err \<le> 1" and S: "\<bar>S\<bar> \<le> 768"
    and c0: "\<bar>c0\<bar> \<le> 3" and c: "\<bar>c\<bar> \<le> 3"
  shows "\<bar>fadd (fsub s c0) c - (S - c0 + c)\<bar> \<le> err + 1 / 2 ^ 41"
proof -
  have small: "(1::real) / 2 ^ 42 \<le> 1" by simp
  have "\<bar>s - c0\<bar> \<le> 2048" using s err S c0 by linarith
  then have w: "\<bar>fsub s c0 - (s - c0)\<bar> \<le> 1 / 2 ^ 42" by (rule fsub_error)
  have "\<bar>fsub s c0 + c\<bar> \<le> 2048" using w small s err S c0 c by linarith
  then have "\<bar>fadd (fsub s c0) c - (fsub s c0 + c)\<bar> \<le> 1 / 2 ^ 42" by (rule fadd_error)
  then show ?thesis unfolding two_roundings using w s by linarith
qed

lemma scoresNearAnswers_recordAnswer_double:
  assumes dist: "distinct (map qid questions)" and q: "q \<in> set questions"
    and size: "length questions \<le> 256"
    and v: "isValidLikertValue (Num v)"
    and inv: "scoresNearAnswers questions err st" and err: "err \<le> 1"
  shows "scoresNearAnswers questions (err + 1 / 2 ^ 41) (recordAnswer_double q v st)"
proof -
  have valid: "\<forall>q \<in> set questions. \<forall>a. answers st (qid q) = Some a \<longrightarrow>
          isValidLikertValue (Num (ans_value a))"
    using inv unfolding scoresNearAnswers_def by blast
  have near: "\<bar>functionScores st d - recordedScore_double questions (answers st) d\<bar> \<le> err" for d
    using inv unfolding scoresNearAnswers_def by blast
  have err0: "0 \<le> err" using near [of Ni] by linarith
  have S: "\<bar>recordedScore_double questions (answers st) d\<bar> \<le> 768" for d
    using recordedScore_double_bound [OF valid, of d] size by simp
  have inj: "inj_on qid (set questions)"
    using dist by (simp add: distinct_map)
  have c: "\<bar>calculateScore_double v (isReverseOf q)\<bar> \<le> 3"
    using v by (rule calculateScore_double_bound)
  have scores: "\<bar>functionScores (recordAnswer_double q v st) d
            - recordedScore_double questions (answers (recordAnswer_double q v st)) d\<bar>
            \<le> err + 1 / 2 ^ 41" for d
  proof (cases "d = qtype q")
    case False
    then show ?thesis
      using near [of d] by (simp add: recordAnswer_double_fields recordedScore_double_update [OF dist q])
  next
    case True
    show ?thesis
    proof (cases "answers st (qid q)")
      case None
      then show ?thesis
        using record_error [OF near [of d] err S [of d] c] True
        by (simp add: recordAnswer_double_fields recordedScore_double_update [OF dist q])
    next
      case (Some old)
      with inv q have flag: "ans_isReverse old = isReverseOf q"
        and ok: "isValidLikertValue (Num (ans_value old))"
        unfolding scoresNearAnswers_def by blast+
      have c0: "\<bar>calculateScore_double (ans_value old) (isReverseOf q)\<bar> \<le> 3"
        using ok by (rule calculateScore_double_bound)
      show ?thesis
        using revise_error [OF near [of d] err S [of d] c0 c] True Some flag
        by (simp add: recordAnswer_double_fields recordedScore_double_update [OF dist q])
    qed
  qed
  have dom: "dom (answers (recordAnswer_double q v st)) \<subseteq> qid ` set questions"
    using inv q by (auto simp: recordAnswer_double_fields scoresNearAnswers_def)
  have flag: "ans_isReverse a = isReverseOf q' \<and> isValidLikertValue (Num (ans_value a))"
    if "q' \<in> set questions" "answers (recordAnswer_double q v st) (qid q') = Some a" for q' a
  proof (cases "qid q' = qid q")
    case True
    with inj that(1) q have "q' = q" by (auto dest: inj_onD)
    with that(2) v show ?thesis by (auto simp: recordAnswer_double_fields)
  next
    case False
    with that inv show ?thesis by (auto simp: recordAnswer_double_fields scoresNearAnswers_def)
  qed
  show ?thesis
    unfolding scoresNearAnswers_def using scores dom flag by blast
qed

lemma recordedScore_double_sum:
  assumes "distinct (map qid questions)"
  shows "recordedScore_double questions ans d =
           (\<Sum>i \<in> answersOfType questions ans d.
              case ans i of None \<Rightarrow> 0
              | Some a \<Rightarrow> calculateScore_double (ans_value a) (ans_isReverse a))"
proof -
  let ?g = "\<lambda>i. case ans i of None \<Rightarrow> 0
            | Some a \<Rightarrow> calculateScore_double (ans_value a) (ans_isReverse a)"
  let ?xs = "filter (\<lambda>q. qtype q = d) questions"
  let ?S = "set (map qid ?xs)"
  have d: "distinct (map qid ?xs)"
    using assms by (rule distinct_map_filter)
  have "recordedScore_double questions ans d = sum_list (map ?g (map qid ?xs))"
    by (simp add: recordedScore_double_def comp_def)
  also have "\<dots> = sum ?g ?S"
    using d by (rule sum_list_distinct_conv_sum_set)
  also have "\<dots> = sum ?g (answersOfType questions ans d)"
  proof (rule sum.mono_neutral_right)
    show "finite ?S" by simp
    show "answersOfType questions ans d \<subseteq> ?S"
      by (auto simp: answersOfType_def)
    show "\<forall>i \<in> ?S - answersOfType questions ans d. ?g i = 0"
      by (auto simp: answersOfType_def split: option.splits)
  qed
  finally show ?thesis .
qed

lemma scoresNearAnswers_mono:
  "scoresNearAnswers questions err st \<Longrightarrow> err \<le> err' \<Longrightarrow> scoresNearAnswers questions err' st"
  unfolding scoresNearAnswers_def by (meson order_trans)

lemma scoresNearAnswers_createDefaultState:
  "0 \<le> err \<Longrightarrow> scoresNearAnswers questions err createDefaultState"
  by (simp add: scoresNearAnswers_def createDefaultState_def recordedScore_double_def)

lemma scoresNearAnswers_position:
  "scoresNearAnswers questions err (st\<lparr>currentQuestion := n\<rparr>) = scoresNearAnswers questions err st"
  "scoresNearAnswers questions err (st\<lparr>showResult := b\<rparr>) = scoresNearAnswers questions err st"
  by (simp_all add: scoresNearAnswers_def)

lemma scoresNearAnswers_nonneg: "scoresNearAnswers questions err st \<Longrightarrow> 0 \<le> err"
proof -
  assume "scoresNearAnswers questions err st"
  then have "\<bar>functionScores st Ni - recordedScore_double questions (answers st) Ni\<bar> \<le> err"
    unfolding scoresNearAnswers_def by blast
  then show ?thesis by linarith
qed

lemma scoresNearAnswers_handleAnswer_double:
  assumes "distinct (map qid questions)" and "length questions \<le> 256"
    and "isValidLikertValue (Num v)"
    and inv: "scoresNearAnswers questions err (state a)" and "err \<le> 1"
  shows "scoresNearAnswers questions (err + 1 / 2 ^ 41) (state (snd (handleAnswer_double questions v a)))"
proof -
  have up: "scoresNearAnswers questions (err + 1 / 2 ^ 41) (state a)"
    using inv by (rule scoresNearAnswers_mono) simp
  show ?thesis
  proof (cases "isProcessing a \<or> length questions \<le> currentQuestion (state a)")
    case True
    then show ?thesis using up by (auto simp: handleAnswer_double_def Let_def)
  next
    case False
    then have q: "questions ! currentQuestion (state a) \<in> set questions" by simp
    have "scoresNearAnswers questions (err + 1 / 2 ^ 41)
            (recordAnswer_double (questions ! currentQuestion (state a)) v (state a))"
      by (rule scoresNearAnswers_recordAnswer_double [OF assms(1) q assms(2,3) inv assms(5)])
    then show ?thesis using False by (simp add: handleAnswer_double_def Let_def)
  qed
qed

lemma scoresNearAnswers_step_double:
  assumes "distinct (map qid questions)" and "length questions \<le> 256"
    and valid: "\<forall>v. ev = Answer v \<longrightarrow> isValidLikertValue (Num v)"
    and inv: "scoresNearAnswers questions err (state a)" and err: "err \<le> 1"
  shows "scoresNearAnswers questions (err + 1 / 2 ^ 41) (state (step_double questions a ev))"
proof -
  have up: "scoresNearAnswers questions (err + 1 / 2 ^ 41) (state a)"
    using inv by (rule scoresNearAnswers_mono) simp
  have pos: "0 \<le> err + 1 / 2 ^ 41"
    using scoresNearAnswers_nonneg [OF up] .
  show ?thesis
  proof (cases ev)
    case (Answer v)
    with valid have "isValidLikertValue (Num v)" by simp
    then show ?thesis
      using scoresNearAnswers_handleAnswer_double [OF assms(1,2) _ inv err] Answer by simp
  next
    case GoBack
    then show ?thesis using up by (simp add: goBack_def scoresNearAnswers_position)
  next
    case Reset
    then show ?thesis using pos by (simp add: reset_def scoresNearAnswers_createDefaultState)
  next
    case TimerFires
    then show ?thesis
      using up
      by (cases "pending a"; cases "the (pending a)")
         (simp_all add: timerFires_def scoresNearAnswers_position)
  qed
qed

lemma scoresNearAnswers_foldl:
  assumes "distinct (map qid questions)" and "length questions \<le> 256"
  shows "\<forall>v. Answer v \<in> set events \<longrightarrow> isValidLikertValue (Num v) \<Longrightarrow>
         scoresNearAnswers questions (real n / 2 ^ 41) (state a) \<Longrightarrow>
         n + length events \<le> 2 ^ 41 \<Longrightarrow>
         scoresNearAnswers questions (real (n + length events) / 2 ^ 41)
           (state (foldl (step_double questions) a events))"
proof (induction events arbitrary: a n)
  case Nil
  then show ?case by simp
next
  case (Cons ev events)
  have n: "real n / 2 ^ 41 \<le> 1" using Cons.prems(3) by (simp add: field_simps)
  have v: "\<forall>v. ev = Answer v \<longrightarrow> isValidLikertValue (Num v)" using Cons.prems(1) by simp
  have eq: "real n / 2 ^ 41 + 1 / 2 ^ 41 = real (Suc n) / 2 ^ 41"
    by (simp add: add_divide_distrib)
  have s: "scoresNearAnswers questions (real (Suc n) / 2 ^ 41) (state (step_double questions a ev))"
    using scoresNearAnswers_step_double [OF assms v Cons.prems(2) n] unfolding eq .
  have "scoresNearAnswers questions (real (Suc n + length events) / 2 ^ 41)
           (state (foldl (step_double questions) (step_double questions a ev) events))"
    using Cons.prems(1,3) by (intro Cons.IH [OF _ s]) simp_all
  then show ?case by simp
qed

lemma scoresNearAnswers_run_double:
  assumes "distinct (map qid questions)" and "length questions \<le> 256"
    and "\<forall>v. Answer v \<in> set events \<longrightarrow> isValidLikertValue (Num v)"
    and "length events \<le> 1000000"
  shows "scoresNearAnswers questions (real (length events) / 2 ^ 41)
           (state (run_double questions events))"
proof -
  have 0: "scoresNearAnswers questions (real 0 / 2 ^ 41) (state initialApp)"
    by (simp add: initialApp_def scoresNearAnswers_createDefaultState)
  have "0 + length events \<le> 2 ^ 41" using assms(4) by simp
  from scoresNearAnswers_foldl [OF assms(1,2,3) 0 this]
  show ?thesis by (simp add: run_double_def)
qed

lemmas session_double_defs =
  run_double_def sixFives_def revisedSession_def directSession_def eightAnswers_def
  repeatedSession_def niQuestions_def
  initialApp_def createDefaultState_def handleAnswer_double_def recordAnswer_double_def
  timerFires_def goBack_def Let_def

lemmas double_arith =
  calculateScore_double_values fadd_def fsub_def fl_0 fl_evals roundTiesToEven_def


lemma revisedSession_score:
  "functionScores (state (run_double niQuestions revisedSession)) Ni = 7759916225288623 / 562949953421312"
  apply (simp add: session_double_defs)
  apply (simp add: double_arith)
  done

lemma directSession_score:
  "functionScores (state (run_double niQuestions directSession)) Ni = 3879958112644311 / 281474976710656"
  apply (simp add: session_double_defs)
  apply (simp add: double_arith)
  done

lemma revisedSession_answers:
  "answers (state (run_double niQuestions revisedSession)) = answers (state (run_double niQuestions directSession))"
  by (simp add: session_double_defs)

lemma revisedSession_sum:
  "recordedScore_double niQuestions (answers (state (run_double niQuestions revisedSession))) Ni
     = 3879958112644311 / 281474976710656"
  apply (simp add: session_double_defs recordedScore_double_def)
  apply (simp add: double_arith)
  done


lemma eightAnswers_sum:
  "recordedScore_double niQuestions (answers (state (run_double niQuestions eightAnswers))) Ni
     = - (8490285642748747 / 562949953421312)"
  apply (simp add: session_double_defs recordedScore_double_def)
  apply (simp add: double_arith)
  done

lemma repeatedSession_score:
  "functionScores (state (run_double niQuestions repeatedSession)) Ni
     = - (2122571410687187 / 140737488355328)"
  apply (simp add: session_double_defs)
  apply (simp add: double_arith)
  done

lemma repeatedSession_answers:
  "answers (state (run_double niQuestions repeatedSession))
     = answers (state (run_double niQuestions eightAnswers))"
  by (simp add: session_double_defs fun_eq_iff)






section \<open>The invariant, revision, frame and reset of a session\<close>

text \<open>
  C1. In the arithmetic of the source the score of a function is not always the sum of
  the scores of its recorded answers (\<open>score_invariant_exact_counterexample\<close> below). What
  holds is this. Over a bank of at most 256 questions with distinct ids, after any session
  of at most a million events whose answers are values 1 to 5, the score of each function
  \<open>d\<close> differs from the sum, over the recorded answers of the questions of type \<open>d\<close>, of
  \<open>calculateScore\<close> of the stored value under the stored reversal flag by at most
  \<open>2 ^ - 41\<close> for each event of the session; every recorded answer belongs to a question
  of the bank and carries the flag of its question; recording an answer, a revision
  included, adds at most \<open>2 ^ - 41\<close> to the difference; and after \<open>reset\<close> the difference
  is 0. (In exact arithmetic the difference is 0 throughout: \<open>scoresMatchAnswers_run\<close>.)
\<close>

theorem score_invariant_rounded:
  assumes "distinct (map qid questions)" and "length questions \<le> 256"
    and "\<forall>v. Answer v \<in> set events \<longrightarrow> isValidLikertValue (Num v)"
    and "length events \<le> 1000000"
  shows "\<bar>functionScores (state (run_double questions events)) d
           - (\<Sum>i \<in> answersOfType questions (answers (state (run_double questions events))) d.
                case answers (state (run_double questions events)) i of
                  None \<Rightarrow> 0
                | Some a \<Rightarrow> calculateScore_double (ans_value a) (ans_isReverse a))\<bar>
           \<le> real (length events) / 2 ^ 41
       \<and> dom (answers (state (run_double questions events))) \<subseteq> qid ` set questions
       \<and> (\<forall>q \<in> set questions. \<forall>a.
             answers (state (run_double questions events)) (qid q) = Some a
               \<longrightarrow> ans_isReverse a = isReverseOf q)
       \<and> (\<forall>q \<in> set questions. \<forall>v err st.
             isValidLikertValue (Num v) \<and> err \<le> 1 \<and> scoresNearAnswers questions err st
               \<longrightarrow> scoresNearAnswers questions (err + 1 / 2 ^ 41) (recordAnswer_double q v st))
       \<and> (\<forall>a. scoresNearAnswers questions 0 (state (reset a)))"
proof -
  have inv: "scoresNearAnswers questions (real (length events) / 2 ^ 41)
           (state (run_double questions events))"
    by (rule scoresNearAnswers_run_double [OF assms])
  from inv have 1: "\<bar>functionScores (state (run_double questions events)) d
           - recordedScore_double questions (answers (state (run_double questions events))) d\<bar>
           \<le> real (length events) / 2 ^ 41"
    unfolding scoresNearAnswers_def by blast
  have 0: "\<bar>functionScores (state (run_double questions events)) d
           - (\<Sum>i \<in> answersOfType questions (answers (state (run_double questions events))) d.
                case answers (state (run_double questions events)) i of
                  None \<Rightarrow> 0
                | Some a \<Rightarrow> calculateScore_double (ans_value a) (ans_isReverse a))\<bar>
           \<le> real (length events) / 2 ^ 41"
    using 1 unfolding recordedScore_double_sum [OF assms(1)] .
  from inv have 2: "dom (answers (state (run_double questions events))) \<subseteq> qid ` set questions"
    unfolding scoresNearAnswers_def by blast
  from inv have 3: "\<forall>q \<in> set questions. \<forall>a.
             answers (state (run_double questions events)) (qid q) = Some a
               \<longrightarrow> ans_isReverse a = isReverseOf q"
    unfolding scoresNearAnswers_def by blast
  have 4: "scoresNearAnswers questions (err + 1 / 2 ^ 41) (recordAnswer_double q v st)"
    if "q \<in> set questions" "isValidLikertValue (Num v)" "err \<le> 1"
       "scoresNearAnswers questions err st" for q v err st
    by (rule scoresNearAnswers_recordAnswer_double [OF assms(1) that(1) assms(2) that(2,4,3)])
  have 5: "scoresNearAnswers questions 0 (state (reset a))" for a :: app
    by (simp add: reset_def scoresNearAnswers_createDefaultState)
  show ?thesis
    using 0 2 3 4 5 by blast
qed

theorem score_invariant_rounded_witness:
  "distinct (map qid niQuestions) \<and> length niQuestions \<le> 256
   \<and> isValidLikertValue (Num 5) \<and> isValidLikertValue (Num 3)
   \<and> length revisedSession \<le> 1000000
   \<and> functionScores (state (run_double niQuestions revisedSession)) Ni
        = 7759916225288623 / 562949953421312
   \<and> \<bar>7759916225288623 / 562949953421312
        - (\<Sum>i \<in> answersOfType niQuestions (answers (state (run_double niQuestions revisedSession))) Ni.
             case answers (state (run_double niQuestions revisedSession)) i of
               None \<Rightarrow> 0
             | Some a \<Rightarrow> calculateScore_double (ans_value a) (ans_isReverse a))\<bar>
        \<le> real (length revisedSession) / 2 ^ 41
   \<and> length revisedSession = 16"
proof -
  have d: "distinct (map qid niQuestions)" and n: "length niQuestions \<le> 256"
    by (simp_all add: niQuestions_def)
  have v: "\<forall>v. Answer v \<in> set revisedSession \<longrightarrow> isValidLikertValue (Num v)"
    by (auto simp: revisedSession_def sixFives_def)
  have l: "length revisedSession = 16" by (simp add: revisedSession_def sixFives_def)
  then have l': "length revisedSession \<le> 1000000" by simp
  have ok: "isValidLikertValue (Num 5)" "isValidLikertValue (Num 3)" by simp_all
  from score_invariant_rounded [OF d n v l', of Ni, THEN conjunct1]
  show ?thesis
    using d n l l' ok unfolding revisedSession_score by blast
qed

text \<open>
  Six answers of 5 to questions of one function give the score 13.784380259964419, the
  sum of the six scores. When a seventh question of the function is answered 5 and the
  answer is then revised to 3 (score 0), the score is 13.78438025996442, one unit in the
  last place above the sum of the scores of the recorded answers; answering the seventh
  question 3 at once records the same answers and leaves 13.784380259964419.
\<close>

theorem score_invariant_exact_counterexample:
  "functionScores (state (run_double niQuestions revisedSession)) Ni
     = 7759916225288623 / 562949953421312
   \<and> recordedScore_double niQuestions (answers (state (run_double niQuestions revisedSession))) Ni
     = 3879958112644311 / 281474976710656
   \<and> functionScores (state (run_double niQuestions revisedSession)) Ni
     \<noteq> recordedScore_double niQuestions (answers (state (run_double niQuestions revisedSession))) Ni
   \<and> answers (state (run_double niQuestions revisedSession))
     = answers (state (run_double niQuestions directSession))
   \<and> functionScores (state (run_double niQuestions directSession)) Ni
     = 3879958112644311 / 281474976710656"
  unfolding revisedSession_score revisedSession_sum directSession_score
  using revisedSession_answers by simp




text \<open>
  C10. \<open>handleAnswer\<close> on a question of type \<open>d\<close> changes at most the score of \<open>d\<close> and
  the answer stored under the id of the question: every other score and every other entry
  of the answers is as before, as are the position and the result flag; when there is no
  current question the state is unchanged. The same holds of the recording step alone,
  and of \<open>handleAnswer\<close> of the older applications.
\<close>

theorem handleAnswer_frame:
  "(currentQuestion (state a) < length questions \<longrightarrow>
      (\<forall>d. d \<noteq> qtype (questions ! currentQuestion (state a)) \<longrightarrow>
           functionScores (state (snd (handleAnswer questions v a))) d = functionScores (state a) d)
    \<and> (\<forall>i. i \<noteq> qid (questions ! currentQuestion (state a)) \<longrightarrow>
           answers (state (snd (handleAnswer questions v a))) i = answers (state a) i))
   \<and> (length questions \<le> currentQuestion (state a) \<longrightarrow>
        state (snd (handleAnswer questions v a)) = state a)
   \<and> currentQuestion (state (snd (handleAnswer questions v a))) = currentQuestion (state a)
   \<and> showResult (state (snd (handleAnswer questions v a))) = showResult (state a)
   \<and> (\<forall>d. d \<noteq> qtype q \<longrightarrow> functionScores (recordAnswer q v st) d = functionScores st d)
   \<and> (\<forall>i. i \<noteq> qid q \<longrightarrow> answers (recordAnswer q v st) i = answers st i)
   \<and> (l_currentQuestion (l_state b) < length questions \<longrightarrow>
      (\<forall>d. d \<noteq> qtype (questions ! l_currentQuestion (l_state b)) \<longrightarrow>
           functionScores_legacy (snd (handleAnswer_legacy questions v b)) d = functionScores_legacy b d)
    \<and> (\<forall>i. i \<noteq> qid (questions ! l_currentQuestion (l_state b)) \<longrightarrow>
           answers_legacy (snd (handleAnswer_legacy questions v b)) i = answers_legacy b i))"
proof -
  have "(currentQuestion (state a) < length questions \<longrightarrow>
      (\<forall>d. d \<noteq> qtype (questions ! currentQuestion (state a)) \<longrightarrow>
           functionScores (state (snd (handleAnswer questions v a))) d = functionScores (state a) d)
    \<and> (\<forall>i. i \<noteq> qid (questions ! currentQuestion (state a)) \<longrightarrow>
           answers (state (snd (handleAnswer questions v a))) i = answers (state a) i))
   \<and> (length questions \<le> currentQuestion (state a) \<longrightarrow>
        state (snd (handleAnswer questions v a)) = state a)
   \<and> currentQuestion (state (snd (handleAnswer questions v a))) = currentQuestion (state a)
   \<and> showResult (state (snd (handleAnswer questions v a))) = showResult (state a)
   \<and> (\<forall>d. d \<noteq> qtype q \<longrightarrow> functionScores (recordAnswer q v st) d = functionScores st d)
   \<and> (\<forall>i. i \<noteq> qid q \<longrightarrow> answers (recordAnswer q v st) i = answers st i)"
    by (simp add: handleAnswer_def Let_def recordAnswer_fields)
  moreover have "l_currentQuestion (l_state b) < length questions \<longrightarrow>
      (\<forall>d. d \<noteq> qtype (questions ! l_currentQuestion (l_state b)) \<longrightarrow>
           functionScores_legacy (snd (handleAnswer_legacy questions v b)) d = functionScores_legacy b d)
    \<and> (\<forall>i. i \<noteq> qid (questions ! l_currentQuestion (l_state b)) \<longrightarrow>
           answers_legacy (snd (handleAnswer_legacy questions v b)) i = answers_legacy b i)"
    using handleAnswer_legacy_frame [of b questions _ v] by blast
  ultimately show ?thesis by blast
qed

theorem handleAnswer_frame_witness:
  "currentQuestion (state initialApp) < length demoQuestions
   \<and> Ne \<noteq> qtype (demoQuestions ! currentQuestion (state initialApp))
   \<and> functionScores (state (snd (handleAnswer demoQuestions 5 initialApp))) Ne
        = functionScores (state initialApp) Ne
   \<and> 2 \<noteq> qid (demoQuestions ! currentQuestion (state initialApp))
   \<and> answers (state (snd (handleAnswer demoQuestions 5 initialApp))) 2 = answers (state initialApp) 2
   \<and> functionScores (state (snd (handleAnswer demoQuestions 5 initialApp))) Ni = 2 powr 1.2"
proof -
  have h: "currentQuestion (state initialApp) < length demoQuestions"
      "Ne \<noteq> qtype (demoQuestions ! currentQuestion (state initialApp))"
      "2 \<noteq> qid (demoQuestions ! currentQuestion (state initialApp))"
    by (simp_all add: initialApp_def createDefaultState_def demoQuestions_def)
  have "functionScores (state (snd (handleAnswer demoQuestions 5 initialApp))) Ni = 2 powr 1.2"
    by (simp add: initialApp_def createDefaultState_def demoQuestions_def handleAnswer_def
        recordAnswer_def calculateScore_def Let_def)
  with h handleAnswer_frame [where a = initialApp and questions = demoQuestions and v = 5,
      THEN conjunct1]
  show ?thesis by blast
qed

text \<open>
  C5. \<open>reset\<close> of the older applications copies \<open>defaultState\<close> shallowly, and the copy
  refers to the answers and scores that \<open>handleAnswer\<close> has written: after one answer
  and a reset the score of \<open>Ni\<close> is still 2 ^ 1.2 and the answer is still recorded; only the
  position is back at the start. In the same session \<open>reset\<close> of \<open>src/unnamed/part_000\<close>
  leaves the score 0 and no answer (see also \<open>reset_clears\<close>).
\<close>

theorem reset_legacy_keeps_scores:
  "functionScores_legacy (run_legacy demoQuestions [Answer 5, TimerFires, Reset]) Ni = 2 powr 1.2
   \<and> functionScores_legacy (run_legacy demoQuestions [Answer 5, TimerFires, Reset]) Ni \<noteq> 0
   \<and> answers_legacy (run_legacy demoQuestions [Answer 5, TimerFires, Reset]) 1 = Some 5
   \<and> l_currentQuestion (l_state (run_legacy demoQuestions [Answer 5, TimerFires, Reset])) = 0
   \<and> functionScores (state (run demoQuestions [Answer 5, TimerFires, Reset])) Ni = 0
   \<and> answers (state (run demoQuestions [Answer 5, TimerFires, Reset])) 1 = None"
  by (simp add: run_legacy_def run_def legacy_initialApp_def initialApp_def demoQuestions_def
      handleAnswer_legacy_def recordAnswer_legacy_def timerFires_legacy_def reset_legacy_def
      functionScores_legacy_def answers_legacy_def calculateScore_def Let_def
      handleAnswer_def recordAnswer_def timerFires_def reset_def createDefaultState_def)

end
